theory Spec2Isabelle
  imports Complex_Main "HOL-Library.Sublist" "HOL-Library.Multiset"
begin

section \<open>The catalyst load balancer (package catabalancer)\<close>

text \<open>
  A shallow embedding of the balancer core: the event codec (\<open>SetStreams\<close>,
  \<open>GetStreams\<close>, \<open>GetIngestStreams\<close>), the node registry (\<open>UpdateMembers\<close>), the
  stats refresh (\<open>RefreshNodes\<close>), scoring and selection (\<open>createScoredNodes\<close>,
  \<open>GetLoadScore\<close>, \<open>SelectNode\<close>, \<open>GetBestNode\<close>) and the ingest lookup
  (\<open>MistUtilLoadSource\<close>).

  Go strings are byte sequences: \<^typ>\<open>string\<close>. Go maps are partial functions; where
  the code ranges over a map, the order in which that run visits the keys is an argument
  of the model, since Go leaves it unspecified.
\<close>

subsection \<open>The functions of package strings that the code calls\<close>

text \<open>\<open>strings.Index(s, sep)\<close>: the position of the first occurrence, or nothing
  (Go returns -1).\<close>

fun Index :: "string \<Rightarrow> string \<Rightarrow> nat option" where
  "Index [] sep = (if sep = [] then Some 0 else None)"
| "Index (x # xs) sep =
     (if prefix sep (x # xs) then Some 0 else map_option Suc (Index xs sep))"

text \<open>\<open>strings.Cut(s, sep)\<close>: the text before and after the first occurrence of the
  separator, and whether there was one.\<close>

definition Cut :: "string \<Rightarrow> string \<Rightarrow> string \<times> string \<times> bool" where
  "Cut s sep =
     (case Index s sep of
        Some i \<Rightarrow> (take i s, drop (i + length sep) s, True)
      | None \<Rightarrow> (s, [], False))"

text \<open>\<open>strings.Split(s, sep)\<close>: the pieces between the successive occurrences of the
  separator; a string without the separator is the only piece. With the empty separator Go
  cuts after every UTF-8 sequence, here after every byte; the program only passes the
  one-byte separators \<open>|\<close> and \<open>+\<close>.\<close>

function Split :: "string \<Rightarrow> string \<Rightarrow> string list" where
  "Split s sep =
     (if sep = [] then map (\<lambda>c. [c]) s
      else (case Index s sep of
              None \<Rightarrow> [s]
            | Some m \<Rightarrow> take m s # Split (drop (m + length sep) s) sep))"
  by pat_completeness auto
termination
proof (relation "measure (\<lambda>(s, sep). length s)")
  show "wf (measure (\<lambda>(s, sep). length s))" by simp
next
  fix s sep :: string and m :: nat
  assume sep: "sep \<noteq> []" and ix: "Index s sep = Some m"
  from sep ix have "s \<noteq> []" by (cases s) auto
  with sep show "((drop (m + length sep) s, sep), (s, sep)) \<in> measure (\<lambda>(s, sep). length s)"
    by (cases sep) auto
qed

declare Split.simps [simp del]

text \<open>\<open>strings.Join(elems, sep)\<close>.\<close>

fun Join :: "string list \<Rightarrow> string \<Rightarrow> string" where
  "Join [] sep = []"
| "Join [x] sep = x"
| "Join (x # y # ys) sep = x @ sep @ Join (y # ys) sep"

subsection \<open>Time\<close>

text \<open>
  A \<open>time.Time\<close> is an instant in nanoseconds, a \<open>time.Duration\<close> a signed 64-bit
  count of nanoseconds. \<open>Time.Sub\<close> saturates: a difference that does not fit a Duration
  is the largest or the smallest Duration. \<open>time.Since(t)\<close> is \<open>time.Now().Sub(t)\<close>;
  the reading of the clock is the argument \<open>now\<close>.
\<close>

type_synonym time = int
type_synonym duration = int

definition minDuration :: duration where
  "minDuration = - (2 ^ 63)"

definition maxDuration :: duration where
  "maxDuration = 2 ^ 63 - 1"

definition Sub :: "time \<Rightarrow> time \<Rightarrow> duration" where
  "Sub t u =
     (let d = t - u in
      if d < minDuration then minDuration
      else if maxDuration < d then maxDuration
      else d)"

definition Since :: "time \<Rightarrow> time \<Rightarrow> duration" where
  "Since now t = Sub now t"

definition isStale :: "time \<Rightarrow> time \<Rightarrow> duration \<Rightarrow> bool" where
  "isStale now timestamp stale = (stale \<le> Since now timestamp)"

subsection \<open>Data\<close>

text \<open>
  A \<open>float64\<close> is a finite number, an infinity or not-a-number. The code compares
  percentages with the constants 85 and 50 only; a comparison with NaN is false.
\<close>

datatype float64 = Finite real | PosInf | NegInf | NaN

fun f64_gt :: "float64 \<Rightarrow> real \<Rightarrow> bool" where
  "f64_gt (Finite x) c = (c < x)"
| "f64_gt PosInf c = True"
| "f64_gt NegInf c = False"
| "f64_gt NaN c = False"

fun f64_le :: "float64 \<Rightarrow> real \<Rightarrow> bool" where
  "f64_le (Finite x) c = (x \<le> c)"
| "f64_le PosInf c = False"
| "f64_le NegInf c = True"
| "f64_le NaN c = False"

record Node =
  Name :: string
  DTSC :: string

record Stream =
  ID :: string
  PlaybackID :: string
  Timestamp :: time

type_synonym Streams = "string \<rightharpoonup> Stream"

record NodeMetrics =
  CPUUsagePercentage :: float64
  RAMUsagePercentage :: float64
  BandwidthUsagePercentage :: float64
  LoadAvg :: float64
  GeoLatitude :: float64
  GeoLongitude :: float64
  Timestamp :: time

record stats =
  Streams :: "string \<rightharpoonup> Streams"
  IngestStreams :: "string \<rightharpoonup> Streams"
  NodeMetrics :: "string \<rightharpoonup> NodeMetrics"

record ScoredNode =
  Score :: int
  GeoScore :: int
  StreamScore :: int
  GeoDistance :: float64
  Node :: Node
  Streams :: Streams
  IngestStreams :: Streams
  NodeMetrics :: NodeMetrics

record NodeUpdateEvent =
  Resource :: string
  NodeID :: string
  NodeMetrics :: NodeMetrics
  Streams :: string

text \<open>A cluster member (\<open>cluster.Member\<close>): a name and a tag map. Reading a tag that
  is not set gives the empty string, as indexing a Go map does.\<close>

record Member =
  Name :: string
  Tags :: "string \<rightharpoonup> string"

definition tag :: "Member \<Rightarrow> string \<Rightarrow> string" where
  "tag member k = (case Tags member k of None \<Rightarrow> [] | Some v \<Rightarrow> v)"

subsection \<open>Event codec\<close>

definition SetStreams :: "NodeUpdateEvent \<Rightarrow> string list \<Rightarrow> string list \<Rightarrow> NodeUpdateEvent" where
  "SetStreams n streamIDs ingestStreamIDs =
     n\<lparr>NodeUpdateEvent.Streams := Join streamIDs ''|'' @ ''~'' @ Join ingestStreamIDs ''|''\<rparr>"

definition GetStreams :: "NodeUpdateEvent \<Rightarrow> string list" where
  "GetStreams n =
     (case Cut (NodeUpdateEvent.Streams n) ''~'' of
        (beforeSep, afterSep, found) \<Rightarrow>
          if 0 < length beforeSep then Split beforeSep ''|'' else [])"

definition GetIngestStreams :: "NodeUpdateEvent \<Rightarrow> string list" where
  "GetIngestStreams n =
     (case Cut (NodeUpdateEvent.Streams n) ''~'' of
        (beforeSep, afterSep, found) \<Rightarrow>
          if 0 < length afterSep then Split afterSep ''|'' else [])"

text \<open>The zero values \<open>NodeMetrics{}\<close> and \<open>NodeUpdateEvent{}\<close>.\<close>

definition zeroMetrics :: NodeMetrics where
  "zeroMetrics =
     \<lparr>CPUUsagePercentage = Finite 0, RAMUsagePercentage = Finite 0,
      BandwidthUsagePercentage = Finite 0, LoadAvg = Finite 0,
      GeoLatitude = Finite 0, GeoLongitude = Finite 0, Timestamp = 0\<rparr>"

definition zeroEvent :: NodeUpdateEvent where
  "zeroEvent = \<lparr>Resource = [], NodeID = [], NodeMetrics = zeroMetrics, Streams = []\<rparr>"

subsection \<open>The stats store and the balancer\<close>

text \<open>
  The store is modelled by what it answers to the one query of a call: the query fails, or
  it gives a cursor over rows that ends with or without an error (\<open>rows.Err()\<close>). A row
  fails to scan, fails to unmarshal, or decodes to an event. A nil \<open>*sql.DB\<close> is
  \<open>None\<close>.
\<close>

datatype row = ScanError string | Malformed string | Decoded NodeUpdateEvent

datatype store = QueryError string | Rows "row list" "string option"

datatype error =
    NodeStatsDBNil
  | QueryFailed string
  | ScanFailed string
  | UnmarshalFailed string
  | RowsErr string
  | ErrorRefreshingNodes error
  | NumError string
  | NoNodesToSelectFrom
  | SelectTopNodesReturnedNoNodes
  | NoNodeFoundForIngestStream string bool

record CataBalancer =
  NodeName :: string
  Nodes :: "string \<rightharpoonup> Node"
  metricTimeout :: duration
  ingestStreamTimeout :: duration
  NodeStatsDB :: "store option"

definition NewBalancer :: "string \<Rightarrow> duration \<Rightarrow> duration \<Rightarrow> store option \<Rightarrow> CataBalancer" where
  "NewBalancer nodeName mt ist nodeStatsDB =
     \<lparr>NodeName = nodeName, Nodes = Map.empty, metricTimeout = mt,
      ingestStreamTimeout = ist, NodeStatsDB = nodeStatsDB\<rparr>"

text \<open>\<open>UpdateMembers\<close> builds a new map from the members and installs it; its error
  result is always nil, so the model returns the balancer.\<close>

definition addMember :: "(string \<rightharpoonup> Node) \<Rightarrow> Member \<Rightarrow> (string \<rightharpoonup> Node)" where
  "addMember latestNodes member =
     (if tag member ''node'' \<noteq> ''media'' then latestNodes
      else latestNodes(Member.Name member \<mapsto>
             \<lparr>Node.Name = Member.Name member, DTSC = tag member ''dtsc''\<rparr>))"

definition UpdateMembers :: "CataBalancer \<Rightarrow> Member list \<Rightarrow> CataBalancer" where
  "UpdateMembers c members = c\<lparr>Nodes := foldl addMember Map.empty members\<rparr>"

subsection \<open>Refreshing the stats\<close>

definition getPlaybackID :: "string \<Rightarrow> string" where
  "getPlaybackID streamID =
     (let parts = Split streamID ''+'' in
      if length parts = 2 then parts ! 1 else streamID)"

definition emptyStats :: stats where
  "emptyStats =
     \<lparr>stats.Streams = Map.empty, stats.IngestStreams = Map.empty,
      stats.NodeMetrics = Map.empty\<rparr>"

text \<open>\<open>m[node][key] = st\<close> on a map of maps. The inner map always exists where the
  code writes to it (it was made just before).\<close>

definition putStream :: "(string \<rightharpoonup> Streams) \<Rightarrow> string \<Rightarrow> string \<Rightarrow> Stream \<Rightarrow> (string \<rightharpoonup> Streams)" where
  "putStream m node key st =
     m(node \<mapsto> (case m node of None \<Rightarrow> Map.empty | Some inner \<Rightarrow> inner)(key \<mapsto> st))"

definition addStream :: "string \<Rightarrow> time \<Rightarrow> stats \<Rightarrow> string \<Rightarrow> stats" where
  "addStream nodeID now s stream =
     (let playbackID = getPlaybackID stream in
      s\<lparr>stats.Streams := putStream (stats.Streams s) nodeID playbackID
           \<lparr>ID = stream, PlaybackID = playbackID, Timestamp = now\<rparr>\<rparr>)"

definition addIngestStream :: "string \<Rightarrow> time \<Rightarrow> stats \<Rightarrow> string \<Rightarrow> stats" where
  "addIngestStream nodeID now s stream =
     (let playbackID = getPlaybackID stream in
      s\<lparr>stats.Streams := putStream (stats.Streams s) nodeID playbackID
           \<lparr>ID = stream, PlaybackID = playbackID, Timestamp = now\<rparr>,
        stats.IngestStreams := putStream (stats.IngestStreams s) nodeID stream
           \<lparr>ID = stream, PlaybackID = playbackID, Timestamp = now\<rparr>\<rparr>)"

text \<open>The body of the row loop for a decoded event. The clock is read as one instant
  \<open>now\<close> for the whole refresh.\<close>

definition applyEvent :: "duration \<Rightarrow> time \<Rightarrow> stats \<Rightarrow> NodeUpdateEvent \<Rightarrow> stats" where
  "applyEvent mt now s event =
     (if isStale now (NodeMetrics.Timestamp (NodeUpdateEvent.NodeMetrics event)) mt then s
      else
        let s1 = s\<lparr>stats.NodeMetrics :=
                     (stats.NodeMetrics s)(NodeID event \<mapsto> NodeUpdateEvent.NodeMetrics event),
                   stats.Streams := (stats.Streams s)(NodeID event \<mapsto> Map.empty),
                   stats.IngestStreams := (stats.IngestStreams s)(NodeID event \<mapsto> Map.empty)\<rparr>;
            s2 = foldl (addStream (NodeID event) now) s1 (GetStreams event)
        in foldl (addIngestStream (NodeID event) now) s2 (GetIngestStreams event))"

fun scanRows :: "duration \<Rightarrow> time \<Rightarrow> stats \<Rightarrow> row list \<Rightarrow> string option \<Rightarrow> stats \<times> error option" where
  "scanRows mt now s [] err = (s, map_option RowsErr err)"
| "scanRows mt now s (ScanError e # rest) err = (s, Some (ScanFailed e))"
| "scanRows mt now s (Malformed e # rest) err = (s, Some (UnmarshalFailed e))"
| "scanRows mt now s (Decoded event # rest) err =
     scanRows mt now (applyEvent mt now s event) rest err"

text \<open>\<open>RefreshNodes\<close> returns the stats built so far together with the error, as the
  code does.\<close>

definition RefreshNodes :: "CataBalancer \<Rightarrow> time \<Rightarrow> stats \<times> error option" where
  "RefreshNodes c now =
     (case NodeStatsDB c of
        None \<Rightarrow> (emptyStats, Some NodeStatsDBNil)
      | Some (QueryError e) \<Rightarrow> (emptyStats, Some (QueryFailed e))
      | Some (Rows rows err) \<Rightarrow> scanRows (metricTimeout c) now emptyStats rows err)"

subsection \<open>Scoring\<close>

text \<open>Reading \<open>m[node]\<close> from a map of maps: a missing entry is the nil map, which
  reads as empty.\<close>

definition streamsOf :: "(string \<rightharpoonup> Streams) \<Rightarrow> string \<Rightarrow> Streams" where
  "streamsOf m node = (case m node of None \<Rightarrow> Map.empty | Some inner \<Rightarrow> inner)"

text \<open>The copy loop of \<open>createScoredNodes\<close>: every stream of the node that is not stale.
  Each round writes its own key, so the order of the range does not matter.\<close>

definition copyFresh :: "time \<Rightarrow> duration \<Rightarrow> Streams \<Rightarrow> Streams" where
  "copyFresh now timeout src =
     (\<lambda>streamID. case src streamID of
        None \<Rightarrow> None
      | Some stream \<Rightarrow>
          if isStale now (Stream.Timestamp stream) timeout then None else Some stream)"

text \<open>One round of the loop over the registry: nothing is appended for a node without
  metrics or with stale metrics.\<close>

definition scoreNode :: "CataBalancer \<Rightarrow> stats \<Rightarrow> time \<Rightarrow> string \<Rightarrow> ScoredNode option" where
  "scoreNode c s now nodeName =
     (case Nodes c nodeName of
        None \<Rightarrow> None
      | Some node \<Rightarrow>
          (case stats.NodeMetrics s nodeName of
             None \<Rightarrow> None
           | Some metrics \<Rightarrow>
               if isStale now (NodeMetrics.Timestamp metrics) (metricTimeout c) then None
               else Some \<lparr>Score = 0, GeoScore = 0, StreamScore = 0, GeoDistance = Finite 0,
                          Node = node,
                          Streams = copyFresh now (metricTimeout c) (streamsOf (stats.Streams s) nodeName),
                          IngestStreams = Map.empty,
                          NodeMetrics = metrics\<rparr>))"

text \<open>\<open>order\<close> lists the keys of the registry in the order this run of the range loop
  visits them.\<close>

definition createScoredNodes :: "CataBalancer \<Rightarrow> stats \<Rightarrow> time \<Rightarrow> string list \<Rightarrow> ScoredNode list" where
  "createScoredNodes c s now order = List.map_filter (scoreNode c s now) order"

definition HasStream :: "ScoredNode \<Rightarrow> string \<Rightarrow> bool" where
  "HasStream n streamID = (ScoredNode.Streams n streamID \<noteq> None)"

definition GetLoadScore :: "ScoredNode \<Rightarrow> int" where
  "GetLoadScore n =
     (let m = ScoredNode.NodeMetrics n in
      if f64_gt (CPUUsagePercentage m) 85 \<or> f64_gt (BandwidthUsagePercentage m) 85
         \<or> f64_gt (RAMUsagePercentage m) 85 then 0
      else if f64_gt (CPUUsagePercentage m) 50 \<or> f64_gt (BandwidthUsagePercentage m) 50
         \<or> f64_gt (RAMUsagePercentage m) 50 then 1
      else 2)"

subsection \<open>Selection\<close>

text \<open>
  What the selection takes from outside this file: \<open>strconv.ParseFloat\<close> (nothing when
  it returns an error), \<open>geoScores\<close> (in a file of the package that is not among the
  sources),
  \<open>sort.Slice\<close> (whose order among equal scores is unspecified) and the numbers the
  shared random generator hands out, in the order of the draws; a draw below \<open>n\<close> is
  the number modulo \<open>n\<close>.
\<close>

record runtime =
  ParseFloat :: "string \<Rightarrow> float64 option"
  geoScores :: "ScoredNode list \<Rightarrow> float64 \<Rightarrow> float64 \<Rightarrow> ScoredNode list"
  sortSlice :: "(ScoredNode \<Rightarrow> ScoredNode \<Rightarrow> bool) \<Rightarrow> ScoredNode list \<Rightarrow> ScoredNode list"
  rand :: "nat \<Rightarrow> nat"

text \<open>\<open>rand.Shuffle\<close>: for \<open>i\<close> from the last index down to 1, swap \<open>i\<close> with a
  random index at most \<open>i\<close>. \<open>k\<close> counts the draws.\<close>

fun shuffleFrom :: "(nat \<Rightarrow> nat) \<Rightarrow> nat \<Rightarrow> nat \<Rightarrow> 'a list \<Rightarrow> 'a list" where
  "shuffleFrom r k 0 xs = xs"
| "shuffleFrom r k (Suc i) xs =
     (let j = r k mod (Suc i + 1) in
      shuffleFrom r (Suc k) i (xs[Suc i := xs ! j, j := xs ! Suc i]))"

definition shuffle :: "(nat \<Rightarrow> nat) \<Rightarrow> 'a list \<Rightarrow> 'a list" where
  "shuffle r xs = shuffleFrom r 0 (length xs - 1) xs"

definition truncateReturned :: "'a list \<Rightarrow> nat \<Rightarrow> 'a list" where
  "truncateReturned scoredNodes numNodes =
     (if length scoredNodes < numNodes then scoredNodes else take numNodes scoredNodes)"

definition weigh :: "string \<Rightarrow> ScoredNode \<Rightarrow> ScoredNode" where
  "weigh streamID node =
     (let node = node\<lparr>Score := Score node + GeoScore node\<rparr>;
          node = node\<lparr>Score := Score node + GetLoadScore node\<rparr>
      in if HasStream node streamID
         then node\<lparr>StreamScore := 2, Score := Score node + 2\<rparr>
         else node)"

text \<open>\<open>selectTopNodes\<close> returns the chosen nodes and the number of draws the shuffle
  took, so that \<open>SelectNode\<close> continues with the next draw.\<close>

definition selectTopNodes ::
  "runtime \<Rightarrow> ScoredNode list \<Rightarrow> string \<Rightarrow> float64 \<Rightarrow> float64 \<Rightarrow> nat \<Rightarrow> ScoredNode list \<times> nat" where
  "selectTopNodes rt nodes streamID requestLatitude requestLongitude numNodes =
     (let scoredNodes = geoScores rt nodes requestLatitude requestLongitude;
          localHasStreamNotOverloaded =
            map (\<lambda>node. node\<lparr>StreamScore := 2\<rparr>)
              (filter (\<lambda>node. GeoScore node = 2 \<and> HasStream node streamID \<and> GetLoadScore node = 2)
                 scoredNodes)
      in if 0 < length localHasStreamNotOverloaded
         then (truncateReturned (shuffle (rand rt) localHasStreamNotOverloaded) numNodes,
               length localHasStreamNotOverloaded - 1)
         else
           let localNotOverloaded =
                 filter (\<lambda>node. GeoScore node = 2 \<and> GetLoadScore node = 2) scoredNodes
           in if 0 < length localNotOverloaded
              then (truncateReturned (shuffle (rand rt) localNotOverloaded) numNodes,
                    length localNotOverloaded - 1)
              else (truncateReturned
                      (sortSlice rt (\<lambda>a b. Score b < Score a) (map (weigh streamID) scoredNodes))
                      numNodes, 0))"

definition SelectNode :: "runtime \<Rightarrow> ScoredNode list \<Rightarrow> string \<Rightarrow> float64 \<Rightarrow> float64 \<Rightarrow> error + Node" where
  "SelectNode rt nodes streamID requestLatitude requestLongitude =
     (if length nodes = 0 then Inl NoNodesToSelectFrom
      else
        (case selectTopNodes rt nodes streamID requestLatitude requestLongitude 3 of
           (topNodes, k) \<Rightarrow>
             if length topNodes = 0 then Inl SelectTopNodesReturnedNoNodes
             else Inr (Node (topNodes ! (rand rt k mod length topNodes)))))"

text \<open>A coordinate string: the empty string is 0.0, anything else goes to
  \<open>strconv.ParseFloat\<close>.\<close>

definition parseCoord :: "runtime \<Rightarrow> string \<Rightarrow> error + float64" where
  "parseCoord rt str =
     (if str \<noteq> [] then
        (case ParseFloat rt str of None \<Rightarrow> Inl (NumError str) | Some f \<Rightarrow> Inr f)
      else Inr (Finite 0))"

text \<open>
  \<open>GetBestNode\<close>. \<open>now\<close> is the clock during the refresh, \<open>later\<close> the clock during
  \<open>createScoredNodes\<close>. The result \<open>("", "", err)\<close> is \<open>Inl err\<close>.
\<close>

definition GetBestNode ::
  "runtime \<Rightarrow> CataBalancer \<Rightarrow> time \<Rightarrow> time \<Rightarrow> string list \<Rightarrow> string list \<Rightarrow> string \<Rightarrow> string \<Rightarrow> string
     \<Rightarrow> string \<Rightarrow> bool \<Rightarrow> error + string \<times> string" where
  "GetBestNode rt c now later order redirectPrefixes playbackID lat lon fallbackPrefix isStudioReq =
     (case RefreshNodes c now of
        (s, Some err) \<Rightarrow> Inl (ErrorRefreshingNodes err)
      | (s, None) \<Rightarrow>
          (case parseCoord rt lat of
             Inl err \<Rightarrow> Inl err
           | Inr latf \<Rightarrow>
               (case parseCoord rt lon of
                  Inl err \<Rightarrow> Inl err
                | Inr lonf \<Rightarrow>
                    let scoredNodes = createScoredNodes c s later order;
                        chosen =
                          (if 0 < length scoredNodes
                           then (case SelectNode rt scoredNodes playbackID latf lonf of
                                   Inl err \<Rightarrow> Inl err
                                 | Inr node \<Rightarrow> Inr (Node.Name node))
                           else Inr (NodeName c))
                    in (case chosen of
                          Inl err \<Rightarrow> Inl err
                        | Inr nodeName \<Rightarrow>
                            let prefix = (if 0 < length redirectPrefixes
                                          then redirectPrefixes ! 0 else ''video'')
                            in Inr (nodeName, prefix @ ''+'' @ playbackID)))))"

text \<open>The loop of \<open>MistUtilLoadSource\<close> over the keys of the registry.\<close>

fun findIngest :: "CataBalancer \<Rightarrow> stats \<Rightarrow> time \<Rightarrow> string \<Rightarrow> string list \<Rightarrow> error + string" where
  "findIngest c s later streamID [] = Inl (NoNodeFoundForIngestStream streamID False)"
| "findIngest c s later streamID (nodeName # rest) =
     (case streamsOf (stats.IngestStreams s) nodeName streamID of
        Some stream \<Rightarrow>
          if isStale later (Stream.Timestamp stream) (ingestStreamTimeout c)
          then Inl (NoNodeFoundForIngestStream streamID True)
          else Inr (''dtsc://'' @ nodeName)
      | None \<Rightarrow> findIngest c s later streamID rest)"

definition MistUtilLoadSource ::
  "CataBalancer \<Rightarrow> time \<Rightarrow> time \<Rightarrow> string list \<Rightarrow> string \<Rightarrow> string \<Rightarrow> string \<Rightarrow> error + string" where
  "MistUtilLoadSource c now later order streamID lat lon =
     (case RefreshNodes c now of
        (s, Some err) \<Rightarrow> Inl (ErrorRefreshingNodes err)
      | (s, None) \<Rightarrow> findIngest c s later streamID order)"

subsection \<open>The registry invariant\<close>

text \<open>Every entry of the registry is stored under the name it carries. \<open>NewBalancer\<close>
  and \<open>UpdateMembers\<close> establish it.\<close>

definition registry_ok :: "CataBalancer \<Rightarrow> bool" where
  "registry_ok c = (\<forall>k node. Nodes c k = Some node \<longrightarrow> Node.Name node = k)"

subsection \<open>Stats stamped by one refresh\<close>

text \<open>Every stream of every snapshot carries the timestamp \<open>now\<close>.\<close>

definition stamped :: "time \<Rightarrow> stats \<Rightarrow> bool" where
  "stamped now s =
     (\<forall>n streamID st.
        (streamsOf (stats.Streams s) n streamID = Some st
         \<or> streamsOf (stats.IngestStreams s) n streamID = Some st)
        \<longrightarrow> Stream.Timestamp st = now)"

subsection \<open>What the selection needs from the runtime\<close>

text \<open>Modelled from the spec: \<open>geoScores\<close> is in a file of the package that is not
  among the sources; the spec has it compute the geo score and the distance of every
  candidate, so the nodes it returns are nodes it was given. \<open>sort.Slice\<close> returns
  elements of its slice.\<close>

definition keeps_candidates :: "runtime \<Rightarrow> bool" where
  "keeps_candidates rt =
     ((\<forall>nodes lat lon. Node ` set (geoScores rt nodes lat lon) \<subseteq> Node ` set nodes)
      \<and> (\<forall>lt xs. set (sortSlice rt lt xs) \<subseteq> set xs))"

subsection \<open>Example values\<close>

text \<open>A scored node with the given CPU, RAM and bandwidth percentages.\<close>

definition loadNode :: "real \<Rightarrow> real \<Rightarrow> real \<Rightarrow> ScoredNode" where
  "loadNode cpu ram bw =
     \<lparr>Score = 0, GeoScore = 0, StreamScore = 0, GeoDistance = Finite 0,
      Node = \<lparr>Node.Name = ''n'', DTSC = []\<rparr>,
      Streams = Map.empty, IngestStreams = Map.empty,
      NodeMetrics = zeroMetrics\<lparr>CPUUsagePercentage := Finite cpu,
                     RAMUsagePercentage := Finite ram,
                     BandwidthUsagePercentage := Finite bw\<rparr>\<rparr>"

text \<open>A media node \<open>a\<close> and a test node \<open>t\<close> as cluster members, and a balancer
  whose registry holds a node \<open>old\<close>.\<close>

definition memberA :: Member where
  "memberA = \<lparr>Member.Name = ''a'', Tags = [''node'' \<mapsto> ''media'', ''dtsc'' \<mapsto> ''dtsc://a'']\<rparr>"

definition memberT :: Member where
  "memberT = \<lparr>Member.Name = ''t'', Tags = [''node'' \<mapsto> ''test'', ''dtsc'' \<mapsto> ''dtsc://t'']\<rparr>"

definition oldBalancer :: CataBalancer where
  "oldBalancer =
     (NewBalancer ''local'' 5 5 None)
       \<lparr>Nodes := [''old'' \<mapsto> \<lparr>Node.Name = ''old'', DTSC = ''dtsc://old''\<rparr>]\<rparr>"

text \<open>The registry after the members \<open>a\<close> and \<open>t\<close> were announced, with timeouts
  of 5 ns, and stats in which \<open>a\<close> has metrics stamped 96, a stream \<open>abc\<close> stamped 96
  and a stream \<open>gone\<close> stamped 95.\<close>

definition balA :: CataBalancer where
  "balA = UpdateMembers (NewBalancer ''local'' 5 5 None) [memberA, memberT]"

definition statsA :: stats where
  "statsA =
     \<lparr>stats.Streams =
        [''a'' \<mapsto> [''abc'' \<mapsto> \<lparr>ID = ''video+abc'', PlaybackID = ''abc'', Timestamp = 96\<rparr>,
                  ''gone'' \<mapsto> \<lparr>ID = ''video+gone'', PlaybackID = ''gone'', Timestamp = 95\<rparr>]],
      stats.IngestStreams = Map.empty,
      stats.NodeMetrics = [''a'' \<mapsto> zeroMetrics\<lparr>NodeMetrics.Timestamp := 96\<rparr>]\<rparr>"

text \<open>
  A runtime for the examples. Its parser agrees with \<open>strconv.ParseFloat\<close> on the
  strings the examples pass (\<open>1.5\<close>, \<open>-2\<close> and \<open>not-a-number\<close>); its
  \<open>geoScores\<close> takes every node for local; its \<open>sort.Slice\<close> is the insertion sort
  that Go runs on slices of at most 12 elements; its random numbers are 1, 2, 3, ...
\<close>

fun sink :: "('a \<Rightarrow> 'a \<Rightarrow> bool) \<Rightarrow> 'a \<Rightarrow> 'a list \<Rightarrow> 'a list" where
  "sink lt x [] = [x]"
| "sink lt x (y # ys) = (if lt x y then y # sink lt x ys else x # y # ys)"

definition insertionSort :: "('a \<Rightarrow> 'a \<Rightarrow> bool) \<Rightarrow> 'a list \<Rightarrow> 'a list" where
  "insertionSort lt xs = rev (foldl (\<lambda>sorted x. sink lt x sorted) [] xs)"

definition exampleRuntime :: runtime where
  "exampleRuntime =
     \<lparr>ParseFloat = (\<lambda>str. if str = ''1.5'' then Some (Finite 1.5)
                           else if str = ''-2'' then Some (Finite (- 2)) else None),
      geoScores = (\<lambda>nodes lat lon. map (\<lambda>n. n\<lparr>GeoScore := 2\<rparr>) nodes),
      sortSlice = insertionSort,
      rand = (\<lambda>k. k + 1)\<rparr>"

text \<open>An event of node \<open>a\<close> with metrics stamped 98, playing \<open>video+abc\<close> and
  ingesting \<open>video+ing\<close>; stores that answer with this event, with this event followed by
  a row that does not unmarshal, with no rows, and with a failed query.\<close>

definition eventA :: NodeUpdateEvent where
  "eventA =
     SetStreams (zeroEvent\<lparr>NodeID := ''a'',
                   NodeUpdateEvent.NodeMetrics := zeroMetrics\<lparr>NodeMetrics.Timestamp := 98\<rparr>\<rparr>)
       [''video+abc''] [''video+ing'']"

definition balStore :: "store \<Rightarrow> CataBalancer" where
  "balStore st = UpdateMembers (NewBalancer ''local'' 5 5 (Some st)) [memberA, memberT]"

section \<open>The event codec\<close>

lemma Index_char_None: "c \<notin> set s \<Longrightarrow> Index s [c] = None"
  by (induction s) auto

lemma Index_char_first: "c \<notin> set a \<Longrightarrow> Index (a @ c # b) [c] = Some (length a)"
  by (induction a) auto

lemma Split_char_none: "c \<notin> set s \<Longrightarrow> Split s [c] = [s]"
  by (simp add: Split.simps Index_char_None)

lemma Split_char_first: "c \<notin> set a \<Longrightarrow> Split (a @ c # b) [c] = a # Split b [c]"
  by (subst Split.simps) (simp add: Index_char_first)

lemma Split_Join:
  "xs \<noteq> [] \<Longrightarrow> \<forall>x\<in>set xs. c \<notin> set x \<Longrightarrow> Split (Join xs [c]) [c] = xs"
  by (induction xs "[c]" rule: Join.induct) (simp_all add: Split_char_none Split_char_first)

lemma Join_eq_Nil: "Join xs [c] = [] \<longleftrightarrow> xs = [] \<or> xs = [[]]"
  by (induction xs "[c]" rule: Join.induct) simp_all

lemma notin_Join:
  "\<forall>x\<in>set xs. d \<notin> set x \<Longrightarrow> d \<noteq> c \<Longrightarrow> d \<notin> set (Join xs [c])"
  by (induction xs "[c]" rule: Join.induct) simp_all

lemma Cut_char_first: "c \<notin> set a \<Longrightarrow> Cut (a @ c # b) [c] = (a, b, True)"
  by (simp add: Cut_def Index_char_first)

lemma Cut_SetStreams:
  assumes "\<forall>x\<in>set a. CHR ''~'' \<notin> set x"
  shows "Cut (NodeUpdateEvent.Streams (SetStreams n a b)) ''~''
         = (Join a ''|'', Join b ''|'', True)"
proof -
  have "CHR ''~'' \<notin> set (Join a ''|'')"
    using assms by (intro notin_Join) auto
  then show ?thesis
    by (simp add: SetStreams_def Cut_char_first)
qed

text \<open>Decoding one segment gives the list back, except that the segment of the list
  holding only the empty string is empty and decodes to the empty list.\<close>

lemma decode_segment:
  assumes "\<forall>x\<in>set a. CHR ''|'' \<notin> set x"
  shows "(if 0 < length (Join a ''|'') then Split (Join a ''|'') ''|'' else [])
         = (if a = [[]] then [] else a)"
proof (cases "a = [] \<or> a = [[]]")
  case True
  then have "Join a ''|'' = []" by (simp add: Join_eq_Nil)
  with True show ?thesis by auto
next
  case False
  then have ne: "Join a ''|'' \<noteq> []" by (simp add: Join_eq_Nil)
  from False assms have "Split (Join a ''|'') ''|'' = a"
    by (intro Split_Join) auto
  with ne False show ?thesis by auto
qed

lemma GetStreams_SetStreams:
  assumes "\<forall>x\<in>set a. CHR ''|'' \<notin> set x \<and> CHR ''~'' \<notin> set x"
  shows "GetStreams (SetStreams n a b) = (if a = [[]] then [] else a)"
proof -
  have "GetStreams (SetStreams n a b)
        = (if 0 < length (Join a ''|'') then Split (Join a ''|'') ''|'' else [])"
    unfolding GetStreams_def using assms by (subst Cut_SetStreams) auto
  also have "\<dots> = (if a = [[]] then [] else a)"
    using assms by (intro decode_segment) auto
  finally show ?thesis .
qed

lemma GetIngestStreams_SetStreams:
  assumes "\<forall>x\<in>set a. CHR ''~'' \<notin> set x" and "\<forall>x\<in>set b. CHR ''|'' \<notin> set x"
  shows "GetIngestStreams (SetStreams n a b) = (if b = [[]] then [] else b)"
proof -
  have "GetIngestStreams (SetStreams n a b)
        = (if 0 < length (Join b ''|'') then Split (Join b ''|'') ''|'' else [])"
    unfolding GetIngestStreams_def using assms by (subst Cut_SetStreams) auto
  also have "\<dots> = (if b = [[]] then [] else b)"
    using assms by (intro decode_segment) auto
  finally show ?thesis .
qed

text \<open>
  C1 (as stated, refuted). The list \<open>[""]\<close> has one element, which contains no
  separator, and the empty list comes back for it: \<open>SetStreams\<close> writes \<open>"~"\<close>, the
  text before the \<open>~\<close> is empty, and \<open>GetStreams\<close> returns the empty list for an
  empty segment.
\<close>

theorem C1_empty_string_counterexample:
  "GetStreams (SetStreams zeroEvent [''''] []) \<noteq> ['''']"
  by (simp add: GetStreams_def SetStreams_def Cut_def)

text \<open>
  C1 (amended). For stream-ID lists \<open>a\<close> and \<open>b\<close> whose elements contain neither
  \<open>|\<close> nor \<open>~\<close>, decoding the encoded pair gives \<open>a\<close> and \<open>b\<close> back, the empty
  lists included, with one exception on each side: the list whose only element is the empty
  string decodes to the empty list.
\<close>

theorem C1_roundtrip:
  assumes "\<forall>x\<in>set a. CHR ''|'' \<notin> set x \<and> CHR ''~'' \<notin> set x"
    and "\<forall>x\<in>set b. CHR ''|'' \<notin> set x \<and> CHR ''~'' \<notin> set x"
  shows "GetStreams (SetStreams n a b) = (if a = [''''] then [] else a)
         \<and> GetIngestStreams (SetStreams n a b) = (if b = [''''] then [] else b)"
  using assms by (simp add: GetStreams_SetStreams GetIngestStreams_SetStreams)

theorem C1_roundtrip_witness:
  "GetStreams (SetStreams zeroEvent [''video+abc'', ''xyz''] []) = [''video+abc'', ''xyz'']
   \<and> GetIngestStreams (SetStreams zeroEvent [''video+abc'', ''xyz''] []) = []
   \<and> GetIngestStreams (SetStreams zeroEvent [] [''in1'', ''in2'']) = [''in1'', ''in2'']"
proof -
  have a: "\<forall>x\<in>set [''video+abc'', ''xyz'']. CHR ''|'' \<notin> set x \<and> CHR ''~'' \<notin> set x"
    by simp
  have b: "\<forall>x\<in>set ([]::string list). CHR ''|'' \<notin> set x \<and> CHR ''~'' \<notin> set x"
    by simp
  have c: "\<forall>x\<in>set [''in1'', ''in2'']. CHR ''|'' \<notin> set x \<and> CHR ''~'' \<notin> set x"
    by simp
  show ?thesis
    using C1_roundtrip [OF a b, of zeroEvent] C1_roundtrip [OF b c, of zeroEvent]
    by simp
qed


section \<open>Load score\<close>

text \<open>
  C9. \<open>GetLoadScore\<close> is 0 when the CPU, RAM or bandwidth percentage exceeds 85,
  otherwise 1 when one of them exceeds 50, otherwise 2. In particular it is 2 when all
  three are at most 50, and 0 when one of them is exactly 86.
\<close>

theorem C9_GetLoadScore:
  fixes n :: ScoredNode
  defines "cpu \<equiv> CPUUsagePercentage (ScoredNode.NodeMetrics n)"
    and "ram \<equiv> RAMUsagePercentage (ScoredNode.NodeMetrics n)"
    and "bw \<equiv> BandwidthUsagePercentage (ScoredNode.NodeMetrics n)"
  shows "(f64_gt cpu 85 \<or> f64_gt ram 85 \<or> f64_gt bw 85 \<longrightarrow> GetLoadScore n = 0)
       \<and> (\<not> (f64_gt cpu 85 \<or> f64_gt ram 85 \<or> f64_gt bw 85)
            \<and> (f64_gt cpu 50 \<or> f64_gt ram 50 \<or> f64_gt bw 50) \<longrightarrow> GetLoadScore n = 1)
       \<and> (\<not> (f64_gt cpu 50 \<or> f64_gt ram 50 \<or> f64_gt bw 50) \<longrightarrow> GetLoadScore n = 2)
       \<and> (f64_le cpu 50 \<and> f64_le ram 50 \<and> f64_le bw 50 \<longrightarrow> GetLoadScore n = 2)
       \<and> (cpu = Finite 86 \<or> ram = Finite 86 \<or> bw = Finite 86 \<longrightarrow> GetLoadScore n = 0)"
proof -
  have gt: "f64_gt x 85 \<Longrightarrow> f64_gt x 50" for x
    by (cases x) auto
  have le: "f64_le x 50 \<Longrightarrow> \<not> f64_gt x 50" for x
    by (cases x) auto
  show ?thesis
    unfolding GetLoadScore_def Let_def cpu_def ram_def bw_def
    using gt le by auto
qed

theorem C9_GetLoadScore_witness:
  "GetLoadScore (loadNode 86 0 0) = 0 \<and> GetLoadScore (loadNode 50 51 50) = 1
   \<and> GetLoadScore (loadNode 50 50 50) = 2 \<and> GetLoadScore (loadNode 10 85 20) = 1"
  using C9_GetLoadScore [of "loadNode 86 0 0"] C9_GetLoadScore [of "loadNode 50 51 50"]
    C9_GetLoadScore [of "loadNode 50 50 50"] C9_GetLoadScore [of "loadNode 10 85 20"]
  by (simp add: loadNode_def zeroMetrics_def)


section \<open>The node registry\<close>

lemma foldl_addMember_dom:
  "dom (foldl addMember m ms)
   = dom m \<union> Member.Name ` {x \<in> set ms. tag x ''node'' = ''media''}"
  by (induction ms arbitrary: m) (auto simp: addMember_def)

lemma foldl_addMember_other:
  "k \<notin> Member.Name ` set ms \<Longrightarrow> foldl addMember m ms k = m k"
  by (induction ms arbitrary: m) (auto simp: addMember_def)

lemma foldl_addMember_entry:
  "foldl addMember m ms k = Some node \<Longrightarrow>
   m k = Some node
   \<or> (Node.Name node = k
      \<and> (\<exists>x\<in>set ms. Member.Name x = k \<and> tag x ''node'' = ''media''
                     \<and> DTSC node = tag x ''dtsc''))"
proof (induction ms arbitrary: m)
  case Nil
  then show ?case by simp
next
  case (Cons x ms)
  from Cons.prems have "foldl addMember (addMember m x) ms k = Some node" by simp
  from Cons.IH [OF this] show ?case
    by (auto simp: addMember_def split: if_splits)
qed

lemma foldl_addMember_distinct:
  "distinct (map Member.Name ms) \<Longrightarrow> x \<in> set ms \<Longrightarrow> tag x ''node'' = ''media'' \<Longrightarrow>
   foldl addMember m ms (Member.Name x)
   = Some \<lparr>Node.Name = Member.Name x, DTSC = tag x ''dtsc''\<rparr>"
proof (induction ms arbitrary: m)
  case Nil
  then show ?case by simp
next
  case (Cons y ms)
  show ?case
  proof (cases "x = y")
    case True
    with Cons.prems have "Member.Name x \<notin> Member.Name ` set ms" by auto
    then have "foldl addMember (addMember m y) ms (Member.Name x)
               = addMember m y (Member.Name x)"
      by (rule foldl_addMember_other)
    moreover from True Cons.prems
    have "addMember m y (Member.Name x)
          = Some \<lparr>Node.Name = Member.Name x, DTSC = tag x ''dtsc''\<rparr>"
      by (simp add: addMember_def)
    ultimately show ?thesis by simp
  next
    case False
    with Cons show ?thesis by auto
  qed
qed

lemma registry_ok_NewBalancer: "registry_ok (NewBalancer nodeName mt ist db)"
  by (simp add: registry_ok_def NewBalancer_def)

lemma registry_ok_UpdateMembers: "registry_ok (UpdateMembers c members)"
  unfolding registry_ok_def UpdateMembers_def
  using foldl_addMember_entry [of Map.empty members] by fastforce

text \<open>
  C7. After \<open>UpdateMembers\<close> the registry holds exactly the names of the members whose
  tag \<open>node\<close> is \<open>media\<close>; every entry is stored under its name, with the \<open>dtsc\<close>
  tag of a media member of that name as its address (of the member itself when the names in
  the list are distinct); a name that no media member carries is absent, whether it is the
  name of a member without the tag value or of a node of the previous registry; and the new
  registry does not depend on the previous one.
\<close>

theorem C7_UpdateMembers:
  "dom (Nodes (UpdateMembers c members))
     = Member.Name ` {x \<in> set members. tag x ''node'' = ''media''}
   \<and> (\<forall>k node. Nodes (UpdateMembers c members) k = Some node \<longrightarrow>
         Node.Name node = k
         \<and> (\<exists>x\<in>set members. Member.Name x = k \<and> tag x ''node'' = ''media''
                            \<and> DTSC node = tag x ''dtsc''))
   \<and> (distinct (map Member.Name members) \<longrightarrow>
        (\<forall>x\<in>set members.
           Nodes (UpdateMembers c members) (Member.Name x)
           = (if tag x ''node'' = ''media''
              then Some \<lparr>Node.Name = Member.Name x, DTSC = tag x ''dtsc''\<rparr>
              else None)))
   \<and> (\<forall>k. (\<forall>x\<in>set members. Member.Name x = k \<longrightarrow> tag x ''node'' \<noteq> ''media'') \<longrightarrow>
          Nodes (UpdateMembers c members) k = None)
   \<and> Nodes (UpdateMembers c members) = Nodes (UpdateMembers c' members)"
proof -
  let ?N = "Nodes (UpdateMembers c members)"
  have N: "?N = foldl addMember Map.empty members"
    by (simp add: UpdateMembers_def)
  have d: "dom ?N = Member.Name ` {x \<in> set members. tag x ''node'' = ''media''}"
    by (simp add: N foldl_addMember_dom)
  have e: "\<forall>k node. ?N k = Some node \<longrightarrow>
         Node.Name node = k
         \<and> (\<exists>x\<in>set members. Member.Name x = k \<and> tag x ''node'' = ''media''
                            \<and> DTSC node = tag x ''dtsc'')"
    unfolding N using foldl_addMember_entry [of Map.empty members] by fastforce
  have absent: "?N k = None"
    if "\<forall>x\<in>set members. Member.Name x = k \<longrightarrow> tag x ''node'' \<noteq> ''media''" for k
  proof -
    from that have "k \<notin> dom ?N" unfolding d by auto
    then show ?thesis by auto
  qed
  have s: "?N (Member.Name x)
           = (if tag x ''node'' = ''media''
              then Some \<lparr>Node.Name = Member.Name x, DTSC = tag x ''dtsc''\<rparr> else None)"
    if dist: "distinct (map Member.Name members)" and x: "x \<in> set members" for x
  proof (cases "tag x ''node'' = ''media''")
    case True
    with dist x show ?thesis by (simp add: N foldl_addMember_distinct)
  next
    case False
    have "\<forall>y\<in>set members. Member.Name y = Member.Name x \<longrightarrow> tag y ''node'' \<noteq> ''media''"
    proof (intro ballI impI)
      fix y assume "y \<in> set members" and "Member.Name y = Member.Name x"
      with dist x have "y = x" by (meson distinct_map inj_onD)
      with False show "tag y ''node'' \<noteq> ''media''" by simp
    qed
    from absent [OF this] False show ?thesis by simp
  qed
  have i: "?N = Nodes (UpdateMembers c' members)"
    by (simp add: UpdateMembers_def)
  from d e s absent i show ?thesis by blast
qed

theorem C7_UpdateMembers_witness:
  "Nodes (UpdateMembers oldBalancer [memberA, memberT]) ''a''
     = Some \<lparr>Node.Name = ''a'', DTSC = ''dtsc://a''\<rparr>
   \<and> Nodes (UpdateMembers oldBalancer [memberA, memberT]) ''t'' = None
   \<and> Nodes (UpdateMembers oldBalancer [memberA, memberT]) ''old'' = None
   \<and> Nodes oldBalancer ''old'' \<noteq> None
   \<and> dom (Nodes (UpdateMembers oldBalancer [memberA, memberT])) = {''a''}"
proof -
  have dist: "distinct (map Member.Name [memberA, memberT])"
    by (simp add: memberA_def memberT_def)
  have old: "\<forall>x\<in>set [memberA, memberT]. Member.Name x = ''old'' \<longrightarrow> tag x ''node'' \<noteq> ''media''"
    by (simp add: memberA_def memberT_def)
  have "{x \<in> set [memberA, memberT]. tag x ''node'' = ''media''} = {memberA}"
    by (auto simp: memberA_def memberT_def tag_def)
  then have img: "Member.Name ` {x \<in> set [memberA, memberT]. tag x ''node'' = ''media''} = {''a''}"
    by (simp add: memberA_def)
  note t = C7_UpdateMembers [of oldBalancer "[memberA, memberT]" oldBalancer]
  from t have d: "dom (Nodes (UpdateMembers oldBalancer [memberA, memberT])) = {''a''}"
    unfolding img by blast
  from t dist have a: "Nodes (UpdateMembers oldBalancer [memberA, memberT]) (Member.Name memberA)
      = (if tag memberA ''node'' = ''media''
         then Some \<lparr>Node.Name = Member.Name memberA, DTSC = tag memberA ''dtsc''\<rparr> else None)"
    by (meson list.set_intros(1))
  from t dist have b: "Nodes (UpdateMembers oldBalancer [memberA, memberT]) (Member.Name memberT)
      = (if tag memberT ''node'' = ''media''
         then Some \<lparr>Node.Name = Member.Name memberT, DTSC = tag memberT ''dtsc''\<rparr> else None)"
    by (meson list.set_intros)
  from t old have c: "Nodes (UpdateMembers oldBalancer [memberA, memberT]) ''old'' = None"
    by blast
  have o: "Nodes oldBalancer ''old'' \<noteq> None"
    by (simp add: oldBalancer_def NewBalancer_def)
  from a b c d o show ?thesis
    by (simp add: memberA_def memberT_def tag_def)
qed


section \<open>The refresh\<close>

subsection \<open>Writing streams\<close>

lemma streamsOf_putStream:
  "streamsOf (putStream m node key st) n streamID
   = (if n = node \<and> streamID = key then Some st else streamsOf m n streamID)"
  by (simp add: streamsOf_def putStream_def)

lemma addStream_fields:
  "stats.Streams (addStream nodeID now s x)
     = putStream (stats.Streams s) nodeID (getPlaybackID x)
         \<lparr>ID = x, PlaybackID = getPlaybackID x, Timestamp = now\<rparr>"
  "stats.IngestStreams (addStream nodeID now s x) = stats.IngestStreams s"
  "stats.NodeMetrics (addStream nodeID now s x) = stats.NodeMetrics s"
  by (simp_all add: addStream_def Let_def)

lemma addIngestStream_fields:
  "stats.Streams (addIngestStream nodeID now s x)
     = putStream (stats.Streams s) nodeID (getPlaybackID x)
         \<lparr>ID = x, PlaybackID = getPlaybackID x, Timestamp = now\<rparr>"
  "stats.IngestStreams (addIngestStream nodeID now s x)
     = putStream (stats.IngestStreams s) nodeID x
         \<lparr>ID = x, PlaybackID = getPlaybackID x, Timestamp = now\<rparr>"
  "stats.NodeMetrics (addIngestStream nodeID now s x) = stats.NodeMetrics s"
  by (simp_all add: addIngestStream_def Let_def)

text \<open>The first loop: what the playback snapshot holds afterwards was there before or
  was written by the loop; the other two maps are as before.\<close>

lemma foldl_addStream_origin:
  "streamsOf (stats.Streams (foldl (addStream nodeID now) s xs)) n streamID = Some st \<Longrightarrow>
   streamsOf (stats.Streams s) n streamID = Some st
   \<or> (n = nodeID \<and> (\<exists>x\<in>set xs. streamID = getPlaybackID x
        \<and> st = \<lparr>ID = x, PlaybackID = getPlaybackID x, Timestamp = now\<rparr>))"
proof (induction xs arbitrary: s)
  case Nil
  then show ?case by simp
next
  case (Cons x xs)
  from Cons.prems
  have "streamsOf (stats.Streams (foldl (addStream nodeID now) (addStream nodeID now s x) xs))
          n streamID = Some st" by simp
  from Cons.IH [OF this] show ?case
    by (auto simp: addStream_fields streamsOf_putStream split: if_splits)
qed

lemma foldl_addStream_others:
  "stats.IngestStreams (foldl (addStream nodeID now) s xs) = stats.IngestStreams s"
  "stats.NodeMetrics (foldl (addStream nodeID now) s xs) = stats.NodeMetrics s"
  by (induction xs arbitrary: s) (simp_all add: addStream_fields)

text \<open>The second loop.\<close>

lemma foldl_addIngestStream_metrics:
  "stats.NodeMetrics (foldl (addIngestStream nodeID now) s xs) = stats.NodeMetrics s"
  by (induction xs arbitrary: s) (simp_all add: addIngestStream_fields)

lemma foldl_addIngestStream_origin:
  "streamsOf (stats.Streams (foldl (addIngestStream nodeID now) s xs)) n streamID = Some st \<Longrightarrow>
   streamsOf (stats.Streams s) n streamID = Some st
   \<or> (n = nodeID \<and> (\<exists>x\<in>set xs. streamID = getPlaybackID x
        \<and> st = \<lparr>ID = x, PlaybackID = getPlaybackID x, Timestamp = now\<rparr>))"
proof (induction xs arbitrary: s)
  case Nil
  then show ?case by simp
next
  case (Cons x xs)
  from Cons.prems
  have "streamsOf (stats.Streams
          (foldl (addIngestStream nodeID now) (addIngestStream nodeID now s x) xs))
          n streamID = Some st" by simp
  from Cons.IH [OF this] show ?case
    by (auto simp: addIngestStream_fields streamsOf_putStream split: if_splits)
qed

lemma foldl_addIngestStream_ingest_origin:
  "streamsOf (stats.IngestStreams (foldl (addIngestStream nodeID now) s xs)) n streamID = Some st \<Longrightarrow>
   streamsOf (stats.IngestStreams s) n streamID = Some st
   \<or> (n = nodeID \<and> streamID \<in> set xs
        \<and> st = \<lparr>ID = streamID, PlaybackID = getPlaybackID streamID, Timestamp = now\<rparr>)"
proof (induction xs arbitrary: s)
  case Nil
  then show ?case by simp
next
  case (Cons x xs)
  from Cons.prems
  have "streamsOf (stats.IngestStreams
          (foldl (addIngestStream nodeID now) (addIngestStream nodeID now s x) xs))
          n streamID = Some st" by simp
  from Cons.IH [OF this] show ?case
    by (auto simp: addIngestStream_fields streamsOf_putStream split: if_splits)
qed

text \<open>A key that the playback snapshot of the node holds, with a stream of the list as
  its value, is still held so after further rounds.\<close>

lemma foldl_addIngestStream_keeps:
  assumes "\<exists>y\<in>set ys. getPlaybackID y = key
            \<and> streamsOf (stats.Streams s) nodeID key
                = Some \<lparr>ID = y, PlaybackID = key, Timestamp = now\<rparr>"
    and "set xs \<subseteq> set ys"
  shows "\<exists>y\<in>set ys. getPlaybackID y = key
            \<and> streamsOf (stats.Streams (foldl (addIngestStream nodeID now) s xs)) nodeID key
                = Some \<lparr>ID = y, PlaybackID = key, Timestamp = now\<rparr>"
  using assms
proof (induction xs arbitrary: s)
  case Nil
  then show ?case by simp
next
  case (Cons x xs)
  have "\<exists>y\<in>set ys. getPlaybackID y = key
            \<and> streamsOf (stats.Streams (addIngestStream nodeID now s x)) nodeID key
                = Some \<lparr>ID = y, PlaybackID = key, Timestamp = now\<rparr>"
  proof (cases "getPlaybackID x = key")
    case True
    with Cons.prems(2) show ?thesis
      by (auto simp: addIngestStream_fields streamsOf_putStream)
  next
    case False
    with Cons.prems(1) show ?thesis
      by (auto simp: addIngestStream_fields streamsOf_putStream)
  qed
  moreover from Cons.prems(2) have "set xs \<subseteq> set ys" by simp
  ultimately show ?case using Cons.IH by simp
qed

lemma foldl_addIngestStream_playback:
  assumes "x \<in> set xs" and "set xs \<subseteq> set ys"
  shows "\<exists>y\<in>set ys. getPlaybackID y = getPlaybackID x
            \<and> streamsOf (stats.Streams (foldl (addIngestStream nodeID now) s xs)) nodeID
                (getPlaybackID x)
                = Some \<lparr>ID = y, PlaybackID = getPlaybackID x, Timestamp = now\<rparr>"
  using assms
proof (induction xs arbitrary: s)
  case Nil
  then show ?case by simp
next
  case (Cons z xs)
  from Cons.prems(2) have sub: "set xs \<subseteq> set ys" and z: "z \<in> set ys" by simp_all
  show ?case
  proof (cases "x \<in> set xs")
    case True
    from Cons.IH [OF True sub] show ?thesis by simp
  next
    case False
    with Cons.prems(1) have xz: "x = z" by simp
    have "\<exists>y\<in>set ys. getPlaybackID y = getPlaybackID x
            \<and> streamsOf (stats.Streams (addIngestStream nodeID now s z)) nodeID (getPlaybackID x)
                = Some \<lparr>ID = y, PlaybackID = getPlaybackID x, Timestamp = now\<rparr>"
      using xz z by (auto simp: addIngestStream_fields streamsOf_putStream)
    from foldl_addIngestStream_keeps [OF this sub] show ?thesis by simp
  qed
qed

lemma foldl_addIngestStream_ingest:
  "x \<in> set xs \<Longrightarrow>
   streamsOf (stats.IngestStreams (foldl (addIngestStream nodeID now) s xs)) nodeID x
   = Some \<lparr>ID = x, PlaybackID = getPlaybackID x, Timestamp = now\<rparr>"
proof (induction xs arbitrary: s rule: rev_induct)
  case Nil
  then show ?case by simp
next
  case (snoc z xs)
  then show ?case
    by (cases "x = z") (auto simp: addIngestStream_fields streamsOf_putStream)
qed


lemma foldl_addStream_other_node:
  "n \<noteq> nodeID \<Longrightarrow>
   streamsOf (stats.Streams (foldl (addStream nodeID now) s xs)) n = streamsOf (stats.Streams s) n"
  by (induction xs arbitrary: s) (auto simp: addStream_fields streamsOf_putStream)

lemma foldl_addIngestStream_other_node:
  "n \<noteq> nodeID \<Longrightarrow>
   streamsOf (stats.Streams (foldl (addIngestStream nodeID now) s xs)) n
     = streamsOf (stats.Streams s) n
   \<and> streamsOf (stats.IngestStreams (foldl (addIngestStream nodeID now) s xs)) n
     = streamsOf (stats.IngestStreams s) n"
  by (induction xs arbitrary: s) (auto simp: addIngestStream_fields streamsOf_putStream)

subsection \<open>One event\<close>

lemma streamsOf_reset:
  "streamsOf (m(node \<mapsto> Map.empty)) n streamID
   = (if n = node then None else streamsOf m n streamID)"
  by (simp add: streamsOf_def)

lemma applyEvent_stale:
  "isStale now (NodeMetrics.Timestamp (NodeUpdateEvent.NodeMetrics event)) mt \<Longrightarrow>
   applyEvent mt now s event = s"
  by (simp add: applyEvent_def)

lemma applyEvent_metrics:
  "\<not> isStale now (NodeMetrics.Timestamp (NodeUpdateEvent.NodeMetrics event)) mt \<Longrightarrow>
   stats.NodeMetrics (applyEvent mt now s event)
   = (stats.NodeMetrics s)(NodeID event \<mapsto> NodeUpdateEvent.NodeMetrics event)"
  by (simp add: applyEvent_def Let_def foldl_addIngestStream_metrics foldl_addStream_others)

lemma applyEvent_other_node:
  assumes "n \<noteq> NodeID event"
  shows "streamsOf (stats.Streams (applyEvent mt now s event)) n = streamsOf (stats.Streams s) n"
    and "streamsOf (stats.IngestStreams (applyEvent mt now s event)) n
         = streamsOf (stats.IngestStreams s) n"
    and "stats.NodeMetrics (applyEvent mt now s event) n = stats.NodeMetrics s n"
  using assms
  by (auto simp: applyEvent_def Let_def foldl_addIngestStream_other_node
      foldl_addStream_other_node foldl_addStream_others foldl_addIngestStream_metrics
      streamsOf_reset fun_eq_iff)

lemma applyEvent_ingest:
  assumes "\<not> isStale now (NodeMetrics.Timestamp (NodeUpdateEvent.NodeMetrics event)) mt"
    and "x \<in> set (GetIngestStreams event)"
  shows "streamsOf (stats.IngestStreams (applyEvent mt now s event)) (NodeID event) x
         = Some \<lparr>ID = x, PlaybackID = getPlaybackID x, Timestamp = now\<rparr>"
  using assms by (simp add: applyEvent_def Let_def foldl_addIngestStream_ingest)

lemma applyEvent_playback:
  assumes "\<not> isStale now (NodeMetrics.Timestamp (NodeUpdateEvent.NodeMetrics event)) mt"
    and "x \<in> set (GetIngestStreams event)"
  shows "\<exists>y\<in>set (GetIngestStreams event). getPlaybackID y = getPlaybackID x
          \<and> streamsOf (stats.Streams (applyEvent mt now s event)) (NodeID event)
               (getPlaybackID x)
              = Some \<lparr>ID = y, PlaybackID = getPlaybackID x, Timestamp = now\<rparr>"
  using assms foldl_addIngestStream_playback [of x "GetIngestStreams event" "GetIngestStreams event"]
  by (simp add: applyEvent_def Let_def)

lemma applyEvent_stamped:
  assumes "stamped now s"
  shows "stamped now (applyEvent mt now s event)"
proof (cases "isStale now (NodeMetrics.Timestamp (NodeUpdateEvent.NodeMetrics event)) mt")
  case True
  with assms show ?thesis by (simp add: applyEvent_stale)
next
  case False
  let ?s1 = "s\<lparr>stats.NodeMetrics :=
                     (stats.NodeMetrics s)(NodeID event \<mapsto> NodeUpdateEvent.NodeMetrics event),
                   stats.Streams := (stats.Streams s)(NodeID event \<mapsto> Map.empty),
                   stats.IngestStreams := (stats.IngestStreams s)(NodeID event \<mapsto> Map.empty)\<rparr>"
  let ?s2 = "foldl (addStream (NodeID event) now) ?s1 (GetStreams event)"
  let ?s3 = "foldl (addIngestStream (NodeID event) now) ?s2 (GetIngestStreams event)"
  have eq: "applyEvent mt now s event = ?s3"
    using False by (simp add: applyEvent_def Let_def)
  have s1: "stamped now ?s1"
    using assms by (auto simp: stamped_def streamsOf_reset split: if_splits)
  have s2: "stamped now ?s2"
    unfolding stamped_def
  proof (intro allI impI)
    fix n streamID st
    assume "streamsOf (stats.Streams ?s2) n streamID = Some st
            \<or> streamsOf (stats.IngestStreams ?s2) n streamID = Some st"
    then show "Stream.Timestamp st = now"
    proof
      assume "streamsOf (stats.Streams ?s2) n streamID = Some st"
      from foldl_addStream_origin [OF this] s1 show ?thesis
        by (auto simp: stamped_def)
    next
      assume "streamsOf (stats.IngestStreams ?s2) n streamID = Some st"
      then have "streamsOf (stats.IngestStreams ?s1) n streamID = Some st"
        by (simp only: foldl_addStream_others)
      with s1 show ?thesis unfolding stamped_def by blast
    qed
  qed
  have "stamped now ?s3"
    unfolding stamped_def
  proof (intro allI impI)
    fix n streamID st
    assume "streamsOf (stats.Streams ?s3) n streamID = Some st
            \<or> streamsOf (stats.IngestStreams ?s3) n streamID = Some st"
    then show "Stream.Timestamp st = now"
    proof
      assume "streamsOf (stats.Streams ?s3) n streamID = Some st"
      from foldl_addIngestStream_origin [OF this] s2 show ?thesis
        by (auto simp: stamped_def)
    next
      assume "streamsOf (stats.IngestStreams ?s3) n streamID = Some st"
      from foldl_addIngestStream_ingest_origin [OF this] s2 show ?thesis
        by (auto simp: stamped_def)
    qed
  qed
  with eq show ?thesis by simp
qed

subsection \<open>The row loop\<close>

lemma stamped_emptyStats: "stamped now emptyStats"
  by (simp add: stamped_def emptyStats_def streamsOf_def)

lemma scanRows_stamped:
  "stamped now s \<Longrightarrow> stamped now (fst (scanRows mt now s rows err))"
  by (induction mt now s rows err rule: scanRows.induct) (simp_all add: applyEvent_stamped)

lemma RefreshNodes_stamped: "stamped now (fst (RefreshNodes c now))"
  by (simp add: RefreshNodes_def stamped_emptyStats scanRows_stamped
      split: option.splits store.splits)

lemma scanRows_ok_iff:
  "snd (scanRows mt now s rows err) = None
   \<longleftrightarrow> (\<forall>r\<in>set rows. \<exists>event. r = Decoded event) \<and> err = None"
  by (induction mt now s rows err rule: scanRows.induct) auto

lemma scanRows_Decoded:
  "scanRows mt now s (map Decoded events) err
   = (foldl (applyEvent mt now) s events, map_option RowsErr err)"
  by (induction events arbitrary: s) simp_all

lemma all_Decoded:
  "(\<forall>r\<in>set rows. \<exists>event. r = Decoded event) \<Longrightarrow> \<exists>events. rows = map Decoded events"
proof (induction rows)
  case Nil
  then show ?case by simp
next
  case (Cons r rows)
  then obtain event events where "r = Decoded event" and "rows = map Decoded events"
    by auto
  then have "r # rows = map Decoded (event # events)" by simp
  then show ?case by (rule exI)
qed

text \<open>Events that are stale or belong to other nodes leave the entries of a node as they
  are.\<close>

lemma foldl_applyEvent_keeps:
  assumes "\<forall>e\<in>set events. NodeID e = n \<longrightarrow>
             isStale now (NodeMetrics.Timestamp (NodeUpdateEvent.NodeMetrics e)) mt"
  shows "streamsOf (stats.Streams (foldl (applyEvent mt now) s events)) n
           = streamsOf (stats.Streams s) n
         \<and> streamsOf (stats.IngestStreams (foldl (applyEvent mt now) s events)) n
           = streamsOf (stats.IngestStreams s) n
         \<and> stats.NodeMetrics (foldl (applyEvent mt now) s events) n = stats.NodeMetrics s n"
  using assms
proof (induction events arbitrary: s)
  case Nil
  then show ?case by simp
next
  case (Cons e events)
  have step: "streamsOf (stats.Streams (applyEvent mt now s e)) n = streamsOf (stats.Streams s) n
         \<and> streamsOf (stats.IngestStreams (applyEvent mt now s e)) n
           = streamsOf (stats.IngestStreams s) n
         \<and> stats.NodeMetrics (applyEvent mt now s e) n = stats.NodeMetrics s n"
  proof (cases "NodeID e = n")
    case True
    with Cons.prems show ?thesis by (simp add: applyEvent_stale)
  next
    case False
    then have "n \<noteq> NodeID e" by blast
    then show ?thesis by (simp add: applyEvent_other_node)
  qed
  from Cons.prems have "\<forall>e\<in>set events. NodeID e = n \<longrightarrow>
             isStale now (NodeMetrics.Timestamp (NodeUpdateEvent.NodeMetrics e)) mt" by simp
  from Cons.IH [OF this, of "applyEvent mt now s e"] step show ?case by simp
qed


section \<open>Facts about the example values\<close>

lemma NodeStatsDB_balStore: "NodeStatsDB (balStore st) = Some st"
  by (simp add: balStore_def UpdateMembers_def NewBalancer_def)

lemma Nodes_balStore:
  "Nodes (balStore st) = [''a'' \<mapsto> \<lparr>Node.Name = ''a'', DTSC = ''dtsc://a''\<rparr>]"
  by (simp add: balStore_def UpdateMembers_def addMember_def memberA_def memberT_def tag_def)

lemma registry_ok_balStore: "registry_ok (balStore st)"
  by (simp add: balStore_def registry_ok_UpdateMembers)

lemma RefreshNodes_no_rows: "RefreshNodes (balStore (Rows [] None)) now = (emptyStats, None)"
  by (simp add: RefreshNodes_def NodeStatsDB_balStore)

lemma set_sink: "set (sink lt x ys) = insert x (set ys)"
  by (induction ys) auto

lemma set_insertionSort: "set (insertionSort lt xs) = set xs"
proof -
  have "set (foldl (\<lambda>sorted x. sink lt x sorted) acc xs) = set acc \<union> set xs" for acc
    by (induction xs arbitrary: acc) (auto simp: set_sink)
  then show ?thesis by (simp add: insertionSort_def)
qed

lemma keeps_candidates_exampleRuntime: "keeps_candidates exampleRuntime"
  by (auto simp: keeps_candidates_def exampleRuntime_def set_insertionSort)

lemma ingest_of_eventA: "GetIngestStreams eventA = [''video+ing'']"
  by (simp add: eventA_def GetIngestStreams_SetStreams)

lemma playbackID_ing: "getPlaybackID ''video+ing'' = ''ing''"
  by code_simp


lemma Nodes_balA: "Nodes balA = [''a'' \<mapsto> \<lparr>Node.Name = ''a'', DTSC = ''dtsc://a''\<rparr>]"
  by (simp add: balA_def UpdateMembers_def addMember_def memberA_def memberT_def tag_def)

lemma metricTimeout_balA: "metricTimeout balA = 5"
  by (simp add: balA_def UpdateMembers_def NewBalancer_def)


section \<open>Staleness\<close>

lemma isStale_exact:
  assumes "minDuration < timeout" and "timeout \<le> maxDuration"
  shows "isStale now ts timeout \<longleftrightarrow> ts \<le> now - timeout"
  using assms unfolding isStale_def Since_def Sub_def Let_def by auto

lemma copyFresh_Some:
  "copyFresh now timeout src streamID = Some st
   \<longleftrightarrow> src streamID = Some st \<and> \<not> isStale now (Stream.Timestamp st) timeout"
  by (auto simp: copyFresh_def split: option.splits)

lemma scoreNode_Some:
  "scoreNode c s now n = Some sn \<longleftrightarrow>
   (\<exists>node metrics. Nodes c n = Some node \<and> stats.NodeMetrics s n = Some metrics
      \<and> \<not> isStale now (NodeMetrics.Timestamp metrics) (metricTimeout c)
      \<and> sn = \<lparr>Score = 0, GeoScore = 0, StreamScore = 0, GeoDistance = Finite 0,
               Node = node,
               Streams = copyFresh now (metricTimeout c) (streamsOf (stats.Streams s) n),
               IngestStreams = Map.empty, NodeMetrics = metrics\<rparr>)"
  by (auto simp: scoreNode_def split: option.splits)

lemma set_createScoredNodes:
  "set (createScoredNodes c s now order)
   = {sn. \<exists>n\<in>set order. scoreNode c s now n = Some sn}"
  unfolding createScoredNodes_def
  by (induction order) (auto split: option.splits)

text \<open>
  C8. The staleness test is inclusive: an entry is stale exactly when its age, as
  \<open>time.Since\<close> gives it, is the timeout or more. For a timeout above the smallest
  Duration this is: stale when the timestamp is \<open>now - timeout\<close> or older, not stale
  when it is younger. No scored node carries stale metrics or a stale stream; a registered
  node that the loop visits and whose metrics are not stale is scored, with its metrics and
  with every stream of its snapshot that is not stale.
\<close>

theorem C8_staleness_inclusive:
  "(isStale now ts timeout \<longleftrightarrow> timeout \<le> Since now ts)
   \<and> (minDuration < timeout \<and> timeout \<le> maxDuration \<longrightarrow>
        (ts \<le> now - timeout \<longrightarrow> isStale now ts timeout)
        \<and> (now - timeout < ts \<longrightarrow> \<not> isStale now ts timeout))
   \<and> (\<forall>sn\<in>set (createScoredNodes c s now order).
        \<not> isStale now (NodeMetrics.Timestamp (ScoredNode.NodeMetrics sn)) (metricTimeout c)
        \<and> (\<forall>streamID st. ScoredNode.Streams sn streamID = Some st \<longrightarrow>
              \<not> isStale now (Stream.Timestamp st) (metricTimeout c)))
   \<and> (\<forall>n\<in>set order. \<forall>node metrics.
        Nodes c n = Some node \<and> stats.NodeMetrics s n = Some metrics \<longrightarrow>
        (if isStale now (NodeMetrics.Timestamp metrics) (metricTimeout c)
         then scoreNode c s now n = None
         else \<exists>sn\<in>set (createScoredNodes c s now order).
                Node sn = node \<and> ScoredNode.NodeMetrics sn = metrics
                \<and> (\<forall>streamID st.
                      ScoredNode.Streams sn streamID = Some st
                      \<longleftrightarrow> streamsOf (stats.Streams s) n streamID = Some st
                          \<and> \<not> isStale now (Stream.Timestamp st) (metricTimeout c))))"
proof (intro conjI)
  show "isStale now ts timeout \<longleftrightarrow> timeout \<le> Since now ts"
    by (simp add: isStale_def)
  show "minDuration < timeout \<and> timeout \<le> maxDuration \<longrightarrow>
        (ts \<le> now - timeout \<longrightarrow> isStale now ts timeout)
        \<and> (now - timeout < ts \<longrightarrow> \<not> isStale now ts timeout)"
    using isStale_exact [of timeout now ts] by auto
  show "\<forall>sn\<in>set (createScoredNodes c s now order).
        \<not> isStale now (NodeMetrics.Timestamp (ScoredNode.NodeMetrics sn)) (metricTimeout c)
        \<and> (\<forall>streamID st. ScoredNode.Streams sn streamID = Some st \<longrightarrow>
              \<not> isStale now (Stream.Timestamp st) (metricTimeout c))"
    by (auto simp: set_createScoredNodes scoreNode_Some copyFresh_Some)
  show "\<forall>n\<in>set order. \<forall>node metrics.
        Nodes c n = Some node \<and> stats.NodeMetrics s n = Some metrics \<longrightarrow>
        (if isStale now (NodeMetrics.Timestamp metrics) (metricTimeout c)
         then scoreNode c s now n = None
         else \<exists>sn\<in>set (createScoredNodes c s now order).
                Node sn = node \<and> ScoredNode.NodeMetrics sn = metrics
                \<and> (\<forall>streamID st.
                      ScoredNode.Streams sn streamID = Some st
                      \<longleftrightarrow> streamsOf (stats.Streams s) n streamID = Some st
                          \<and> \<not> isStale now (Stream.Timestamp st) (metricTimeout c)))"
  proof (intro ballI allI impI)
    fix n node metrics
    assume n: "n \<in> set order"
      and reg: "Nodes c n = Some node \<and> stats.NodeMetrics s n = Some metrics"
    show "if isStale now (NodeMetrics.Timestamp metrics) (metricTimeout c)
         then scoreNode c s now n = None
         else \<exists>sn\<in>set (createScoredNodes c s now order).
                Node sn = node \<and> ScoredNode.NodeMetrics sn = metrics
                \<and> (\<forall>streamID st.
                      ScoredNode.Streams sn streamID = Some st
                      \<longleftrightarrow> streamsOf (stats.Streams s) n streamID = Some st
                          \<and> \<not> isStale now (Stream.Timestamp st) (metricTimeout c))"
    proof (cases "isStale now (NodeMetrics.Timestamp metrics) (metricTimeout c)")
      case True
      with reg show ?thesis by (simp add: scoreNode_def)
    next
      case False
      let ?sn = "\<lparr>Score = 0, GeoScore = 0, StreamScore = 0, GeoDistance = Finite 0,
               Node = node,
               Streams = copyFresh now (metricTimeout c) (streamsOf (stats.Streams s) n),
               IngestStreams = Map.empty, NodeMetrics = metrics\<rparr>"
      from reg False have "scoreNode c s now n = Some ?sn"
        by (simp add: scoreNode_Some)
      with n have "?sn \<in> set (createScoredNodes c s now order)"
        by (auto simp: set_createScoredNodes)
      moreover have "Node ?sn = node \<and> ScoredNode.NodeMetrics ?sn = metrics
                \<and> (\<forall>streamID st.
                      ScoredNode.Streams ?sn streamID = Some st
                      \<longleftrightarrow> streamsOf (stats.Streams s) n streamID = Some st
                          \<and> \<not> isStale now (Stream.Timestamp st) (metricTimeout c))"
        by (simp add: copyFresh_Some)
      ultimately show ?thesis using False by (simp only: if_False) (rule bexI)
    qed
  qed
qed

theorem C8_staleness_inclusive_witness:
  "minDuration < 5 \<and> 5 \<le> maxDuration
   \<and> isStale 100 95 5 \<and> isStale 100 90 5 \<and> \<not> isStale 100 96 5
   \<and> (\<exists>sn\<in>set (createScoredNodes balA statsA 100 [''a'']).
         Node.Name (Node sn) = ''a''
         \<and> ScoredNode.Streams sn ''abc'' \<noteq> None \<and> ScoredNode.Streams sn ''gone'' = None)"
proof -
  have r: "minDuration < 5 \<and> 5 \<le> maxDuration"
    by (simp add: minDuration_def maxDuration_def)
  note t1 = C8_staleness_inclusive [of 100 95 5 balA statsA "[''a'']"]
  note t2 = C8_staleness_inclusive [of 100 90 5 balA statsA "[''a'']"]
  note t3 = C8_staleness_inclusive [of 100 96 5 balA statsA "[''a'']"]
  have s1: "isStale 100 95 5"
    using t1 [THEN conjunct2, THEN conjunct1, THEN mp, OF r] by simp
  have s2: "isStale 100 90 5"
    using t2 [THEN conjunct2, THEN conjunct1, THEN mp, OF r] by simp
  have s3: "\<not> isStale 100 96 5"
    using t3 [THEN conjunct2, THEN conjunct1, THEN mp, OF r] by simp
  have reg: "Nodes balA ''a'' = Some \<lparr>Node.Name = ''a'', DTSC = ''dtsc://a''\<rparr>
             \<and> stats.NodeMetrics statsA ''a'' = Some (zeroMetrics\<lparr>NodeMetrics.Timestamp := 96\<rparr>)"
    by (simp add: Nodes_balA statsA_def)
  have fresh: "\<not> isStale 100 (NodeMetrics.Timestamp (zeroMetrics\<lparr>NodeMetrics.Timestamp := 96\<rparr>))
                 (metricTimeout balA)"
    using s3 by (simp add: metricTimeout_balA)
  have mem: "''a'' \<in> set [''a'']" by simp
  note t4 = t1 [THEN conjunct2, THEN conjunct2, THEN conjunct2, THEN bspec, OF mem,
      THEN spec, THEN spec, THEN mp, OF reg]
  from t4 fresh
  have "\<exists>sn\<in>set (createScoredNodes balA statsA 100 [''a'']).
          Node sn = \<lparr>Node.Name = ''a'', DTSC = ''dtsc://a''\<rparr>
          \<and> ScoredNode.NodeMetrics sn = zeroMetrics\<lparr>NodeMetrics.Timestamp := 96\<rparr>
          \<and> (\<forall>streamID st. ScoredNode.Streams sn streamID = Some st
                \<longleftrightarrow> streamsOf (stats.Streams statsA) ''a'' streamID = Some st
                    \<and> \<not> isStale 100 (Stream.Timestamp st) (metricTimeout balA))"
    by (simp only: if_False)
  then obtain sn where sn: "sn \<in> set (createScoredNodes balA statsA 100 [''a''])"
    and node: "Node sn = \<lparr>Node.Name = ''a'', DTSC = ''dtsc://a''\<rparr>"
    and str: "\<And>streamID st. ScoredNode.Streams sn streamID = Some st
                \<longleftrightarrow> streamsOf (stats.Streams statsA) ''a'' streamID = Some st
                    \<and> \<not> isStale 100 (Stream.Timestamp st) (metricTimeout balA)"
    by blast
  have "ScoredNode.Streams sn ''abc''
        = Some \<lparr>ID = ''video+abc'', PlaybackID = ''abc'', Timestamp = 96\<rparr>"
    unfolding str using s3 by (simp add: statsA_def streamsOf_def metricTimeout_balA)
  then have abc: "ScoredNode.Streams sn ''abc'' \<noteq> None" by simp
  have gone: "ScoredNode.Streams sn ''gone'' = None"
  proof (cases "ScoredNode.Streams sn ''gone''")
    case None
    then show ?thesis .
  next
    case (Some st)
    from str [of "''gone''" st] Some
    have "streamsOf (stats.Streams statsA) ''a'' ''gone'' = Some st
               \<and> \<not> isStale 100 (Stream.Timestamp st) (metricTimeout balA)"
      by blast
    with s1 show ?thesis
      by (auto simp: statsA_def streamsOf_def metricTimeout_balA)
  qed
  from node have "Node.Name (Node sn) = ''a''" by simp
  with sn abc gone have "\<exists>sn\<in>set (createScoredNodes balA statsA 100 [''a'']).
         Node.Name (Node sn) = ''a''
         \<and> ScoredNode.Streams sn ''abc'' \<noteq> None \<and> ScoredNode.Streams sn ''gone'' = None"
    by blast
  with r s1 s2 s3 show ?thesis by blast
qed


section \<open>Failures of the refresh\<close>

lemma scanRows_bad:
  "\<exists>r\<in>set rows. \<forall>event. r \<noteq> Decoded event \<Longrightarrow>
   \<exists>e. snd (scanRows mt now s rows err) = Some (ScanFailed e)
      \<or> snd (scanRows mt now s rows err) = Some (UnmarshalFailed e)"
  by (induction mt now s rows err rule: scanRows.induct) auto

lemma GetBestNode_refresh_error:
  "snd (RefreshNodes c now) = Some err \<Longrightarrow>
   GetBestNode rt c now later order redirectPrefixes playbackID lat lon fallbackPrefix isStudioReq
   = Inl (ErrorRefreshingNodes err)"
  by (cases "RefreshNodes c now") (simp add: GetBestNode_def)

lemma MistUtilLoadSource_refresh_error:
  "snd (RefreshNodes c now) = Some err \<Longrightarrow>
   MistUtilLoadSource c now later order streamID lat lon = Inl (ErrorRefreshingNodes err)"
  by (cases "RefreshNodes c now") (simp add: MistUtilLoadSource_def)

text \<open>
  C6. When the query fails, or a row of the result fails to scan or to unmarshal,
  \<open>RefreshNodes\<close> returns an error (the failed query, scan or unmarshal), and
  \<open>GetBestNode\<close> and \<open>MistUtilLoadSource\<close> return that error wrapped and nothing else:
  no node is chosen from the rows read before the failure.
\<close>

theorem C6_refresh_aborts:
  assumes "(\<exists>e. NodeStatsDB c = Some (QueryError e))
           \<or> (\<exists>rows err. NodeStatsDB c = Some (Rows rows err)
                 \<and> (\<exists>r\<in>set rows. \<forall>event. r \<noteq> Decoded event))"
  shows "\<exists>err. snd (RefreshNodes c now) = Some err
           \<and> (\<exists>e. err = QueryFailed e \<or> err = ScanFailed e \<or> err = UnmarshalFailed e)
           \<and> GetBestNode rt c now later order redirectPrefixes playbackID lat lon
                fallbackPrefix isStudioReq = Inl (ErrorRefreshingNodes err)
           \<and> MistUtilLoadSource c now later order streamID lat lon
               = Inl (ErrorRefreshingNodes err)"
proof -
  from assms
  have "\<exists>err. snd (RefreshNodes c now) = Some err
           \<and> (\<exists>e. err = QueryFailed e \<or> err = ScanFailed e \<or> err = UnmarshalFailed e)"
  proof
    assume "\<exists>e. NodeStatsDB c = Some (QueryError e)"
    then show ?thesis by (auto simp: RefreshNodes_def)
  next
    assume "\<exists>rows err. NodeStatsDB c = Some (Rows rows err)
                 \<and> (\<exists>r\<in>set rows. \<forall>event. r \<noteq> Decoded event)"
    then obtain rows err where db: "NodeStatsDB c = Some (Rows rows err)"
      and bad: "\<exists>r\<in>set rows. \<forall>event. r \<noteq> Decoded event" by blast
    from scanRows_bad [OF bad, of "metricTimeout c" now emptyStats err] db
    show ?thesis by (auto simp: RefreshNodes_def)
  qed
  then obtain err where err: "snd (RefreshNodes c now) = Some err"
    and kind: "\<exists>e. err = QueryFailed e \<or> err = ScanFailed e \<or> err = UnmarshalFailed e"
    by blast
  from err have "GetBestNode rt c now later order redirectPrefixes playbackID lat lon
                fallbackPrefix isStudioReq = Inl (ErrorRefreshingNodes err)"
    by (rule GetBestNode_refresh_error)
  moreover from err have "MistUtilLoadSource c now later order streamID lat lon
               = Inl (ErrorRefreshingNodes err)"
    by (rule MistUtilLoadSource_refresh_error)
  ultimately show ?thesis using err kind by (intro exI [of _ err]) simp
qed

theorem C6_refresh_aborts_witness:
  "GetBestNode exampleRuntime (balStore (Rows [Decoded eventA, Malformed ''{''] None))
     100 100 [''a''] [] ''abc'' [] [] [] False
     = Inl (ErrorRefreshingNodes (UnmarshalFailed ''{''))
   \<and> MistUtilLoadSource (balStore (Rows [Decoded eventA, Malformed ''{''] None))
       100 100 [''a''] ''video+ing'' [] []
     = Inl (ErrorRefreshingNodes (UnmarshalFailed ''{''))
   \<and> GetBestNode exampleRuntime (balStore (QueryError ''refused''))
       100 100 [''a''] [] ''abc'' [] [] [] False
     = Inl (ErrorRefreshingNodes (QueryFailed ''refused''))"
proof -
  let ?c = "balStore (Rows [Decoded eventA, Malformed ''{''] None)"
  let ?q = "balStore (QueryError ''refused'')"
  have h: "(\<exists>e. NodeStatsDB ?c = Some (QueryError e))
           \<or> (\<exists>rows err. NodeStatsDB ?c = Some (Rows rows err)
                 \<and> (\<exists>r\<in>set rows. \<forall>event. r \<noteq> Decoded event))"
    by (simp add: NodeStatsDB_balStore)
  have e: "snd (RefreshNodes ?c 100) = Some (UnmarshalFailed ''{'')"
    by (simp add: RefreshNodes_def NodeStatsDB_balStore)
  have hq: "(\<exists>e. NodeStatsDB ?q = Some (QueryError e))
           \<or> (\<exists>rows err. NodeStatsDB ?q = Some (Rows rows err)
                 \<and> (\<exists>r\<in>set rows. \<forall>event. r \<noteq> Decoded event))"
    by (simp add: NodeStatsDB_balStore)
  have eq: "snd (RefreshNodes ?q 100) = Some (QueryFailed ''refused'')"
    by (simp add: RefreshNodes_def NodeStatsDB_balStore)
  from C6_refresh_aborts [OF h, of 100 exampleRuntime 100 "[''a'']" "[]" "''abc''" "[]" "[]" "[]"
      False "''video+ing''"] e
  have 1: "GetBestNode exampleRuntime ?c 100 100 [''a''] [] ''abc'' [] [] [] False
     = Inl (ErrorRefreshingNodes (UnmarshalFailed ''{''))
   \<and> MistUtilLoadSource ?c 100 100 [''a''] ''video+ing'' [] []
     = Inl (ErrorRefreshingNodes (UnmarshalFailed ''{''))"
    by auto
  from C6_refresh_aborts [OF hq, of 100 exampleRuntime 100 "[''a'']" "[]" "''abc''" "[]" "[]" "[]"
      False "''video+ing''"] eq
  have 2: "GetBestNode exampleRuntime ?q 100 100 [''a''] [] ''abc'' [] [] [] False
     = Inl (ErrorRefreshingNodes (QueryFailed ''refused''))"
    by auto
  from 1 2 show ?thesis by blast
qed


section \<open>GetBestNode\<close>

lemma parseCoord_ok:
  "str = [] \<or> (\<exists>f. ParseFloat rt str = Some f) \<Longrightarrow> \<exists>f. parseCoord rt str = Inr f"
  by (auto simp: parseCoord_def)

text \<open>
  C3 (as stated, refuted). \<open>GetBestNode\<close> queries the store before it looks at the
  coordinates: with the latitude \<open>not-a-number\<close> and a store whose query fails, the
  result is the wrapped error of the store, not a parse error.
\<close>

theorem C3_store_before_parse_counterexample:
  "ParseFloat exampleRuntime ''not-a-number'' = None
   \<and> GetBestNode exampleRuntime (balStore (QueryError ''refused''))
       100 100 [''a''] [] ''abc'' ''not-a-number'' [] [] False
     = Inl (ErrorRefreshingNodes (QueryFailed ''refused''))
   \<and> GetBestNode exampleRuntime (balStore (QueryError ''refused''))
       100 100 [''a''] [] ''abc'' ''not-a-number'' [] [] False
     \<noteq> Inl (NumError ''not-a-number'')"
  by (simp add: GetBestNode_def RefreshNodes_def balStore_def UpdateMembers_def
      NewBalancer_def exampleRuntime_def)

text \<open>
  C3 (amended). \<open>GetBestNode\<close> refreshes first: when the refresh fails, the result is
  the wrapped refresh error, whatever the coordinates are. When the refresh succeeds, a
  latitude that is not empty and does not parse gives the parse error of the latitude and no
  node; with a latitude that is empty or parses, a longitude that is not empty and does not
  parse gives the parse error of the longitude and no node. The empty string is the
  coordinate 0.0 and no error.
\<close>

theorem C3_malformed_coordinates:
  "(\<forall>err. snd (RefreshNodes c now) = Some err \<longrightarrow>
       GetBestNode rt c now later order redirectPrefixes playbackID lat lon fallbackPrefix
         isStudioReq = Inl (ErrorRefreshingNodes err))
   \<and> (snd (RefreshNodes c now) = None \<and> lat \<noteq> [] \<and> ParseFloat rt lat = None \<longrightarrow>
       GetBestNode rt c now later order redirectPrefixes playbackID lat lon fallbackPrefix
         isStudioReq = Inl (NumError lat))
   \<and> (snd (RefreshNodes c now) = None \<and> (lat = [] \<or> (\<exists>f. ParseFloat rt lat = Some f))
        \<and> lon \<noteq> [] \<and> ParseFloat rt lon = None \<longrightarrow>
       GetBestNode rt c now later order redirectPrefixes playbackID lat lon fallbackPrefix
         isStudioReq = Inl (NumError lon))
   \<and> parseCoord rt [] = Inr (Finite 0)"
proof (intro conjI allI impI)
  fix err assume "snd (RefreshNodes c now) = Some err"
  then show "GetBestNode rt c now later order redirectPrefixes playbackID lat lon fallbackPrefix
         isStudioReq = Inl (ErrorRefreshingNodes err)"
    by (rule GetBestNode_refresh_error)
next
  assume a: "snd (RefreshNodes c now) = None \<and> lat \<noteq> [] \<and> ParseFloat rt lat = None"
  then obtain s where "RefreshNodes c now = (s, None)"
    by (cases "RefreshNodes c now") auto
  with a show "GetBestNode rt c now later order redirectPrefixes playbackID lat lon
         fallbackPrefix isStudioReq = Inl (NumError lat)"
    by (simp add: GetBestNode_def parseCoord_def)
next
  assume a: "snd (RefreshNodes c now) = None \<and> (lat = [] \<or> (\<exists>f. ParseFloat rt lat = Some f))
        \<and> lon \<noteq> [] \<and> ParseFloat rt lon = None"
  then obtain s where s: "RefreshNodes c now = (s, None)"
    by (cases "RefreshNodes c now") auto
  from a have "\<exists>f. parseCoord rt lat = Inr f"
    by (intro parseCoord_ok) blast
  then obtain latf where "parseCoord rt lat = Inr latf" ..
  moreover from a have "parseCoord rt lon = Inl (NumError lon)"
    by (simp add: parseCoord_def)
  ultimately show "GetBestNode rt c now later order redirectPrefixes playbackID lat lon
         fallbackPrefix isStudioReq = Inl (NumError lon)"
    using s by (simp add: GetBestNode_def)
next
  show "parseCoord rt [] = Inr (Finite 0)"
    by (simp add: parseCoord_def)
qed

theorem C3_malformed_coordinates_witness:
  "GetBestNode exampleRuntime (balStore (Rows [] None))
     100 100 [''a''] [] ''abc'' ''not-a-number'' [] [] False = Inl (NumError ''not-a-number'')
   \<and> GetBestNode exampleRuntime (balStore (Rows [] None))
       100 100 [''a''] [] ''abc'' ''1.5'' ''1,5'' [] False = Inl (NumError ''1,5'')
   \<and> GetBestNode exampleRuntime (balStore (Rows [] None))
       100 100 [''a''] [] ''abc'' [] ''x'' [] False = Inl (NumError ''x'')
   \<and> GetBestNode exampleRuntime (balStore (Rows [Malformed ''{''] None))
       100 100 [''a''] [] ''abc'' ''not-a-number'' [] [] False
     = Inl (ErrorRefreshingNodes (UnmarshalFailed ''{''))"
proof -
  let ?c = "balStore (Rows [] None)"
  let ?b = "balStore (Rows [Malformed ''{''] None)"
  have ok: "snd (RefreshNodes ?c 100) = None"
    by (simp add: RefreshNodes_no_rows)
  have bad: "snd (RefreshNodes ?b 100) = Some (UnmarshalFailed ''{'')"
    by (simp add: RefreshNodes_def NodeStatsDB_balStore)
  have p: "ParseFloat exampleRuntime ''not-a-number'' = None"
    "ParseFloat exampleRuntime ''1,5'' = None" "ParseFloat exampleRuntime ''x'' = None"
    "ParseFloat exampleRuntime ''1.5'' = Some (Finite 1.5)"
    by (simp_all add: exampleRuntime_def)
  note t = C3_malformed_coordinates [where rt = exampleRuntime and now = 100 and later = 100
      and order = "[''a'']" and redirectPrefixes = "[]" and playbackID = "''abc''"
      and fallbackPrefix = "[]" and isStudioReq = False]
  have 1: "GetBestNode exampleRuntime ?c 100 100 [''a''] [] ''abc'' ''not-a-number'' [] [] False
           = Inl (NumError ''not-a-number'')"
    using t [where c = ?c and lat = "''not-a-number''" and lon = "[]",
        THEN conjunct2, THEN conjunct1] ok p by simp
  have 2: "GetBestNode exampleRuntime ?c 100 100 [''a''] [] ''abc'' ''1.5'' ''1,5'' [] False
           = Inl (NumError ''1,5'')"
    using t [where c = ?c and lat = "''1.5''" and lon = "''1,5''",
        THEN conjunct2, THEN conjunct2, THEN conjunct1] ok p by simp
  have 3: "GetBestNode exampleRuntime ?c 100 100 [''a''] [] ''abc'' [] ''x'' [] False
           = Inl (NumError ''x'')"
    using t [where c = ?c and lat = "[]" and lon = "''x''",
        THEN conjunct2, THEN conjunct2, THEN conjunct1] ok p by simp
  have 4: "GetBestNode exampleRuntime ?b 100 100 [''a''] [] ''abc'' ''not-a-number'' [] [] False
           = Inl (ErrorRefreshingNodes (UnmarshalFailed ''{''))"
    using t [where c = ?b and lat = "''not-a-number''" and lon = "[]", THEN conjunct1] bad
    by simp
  from 1 2 3 4 show ?thesis by blast
qed


text \<open>
  C5. When the refresh succeeds, both coordinates are empty or parse, and no node is
  scored, \<open>GetBestNode\<close> returns the name of the local node with the stream name
  \<open><prefix>+<playbackID>\<close> and no error. No node is scored, in particular, when the
  registry is empty.
\<close>

theorem C5_self_selection:
  assumes "snd (RefreshNodes c now) = None"
    and "lat = [] \<or> (\<exists>f. ParseFloat rt lat = Some f)"
    and "lon = [] \<or> (\<exists>f. ParseFloat rt lon = Some f)"
    and "createScoredNodes c (fst (RefreshNodes c now)) later order = []"
  shows "GetBestNode rt c now later order redirectPrefixes playbackID lat lon fallbackPrefix
           isStudioReq
         = Inr (NodeName c,
                (if redirectPrefixes = [] then ''video'' else redirectPrefixes ! 0)
                  @ ''+'' @ playbackID)
         \<and> createScoredNodes c (fst (RefreshNodes c now)) later [] = []"
proof -
  from assms(1) obtain s where s: "RefreshNodes c now = (s, None)"
    by (cases "RefreshNodes c now") auto
  from parseCoord_ok [OF assms(2)] obtain latf where lat: "parseCoord rt lat = Inr latf" ..
  from parseCoord_ok [OF assms(3)] obtain lonf where lon: "parseCoord rt lon = Inr lonf" ..
  from assms(4) s have empty: "createScoredNodes c s later order = []" by simp
  have "createScoredNodes c (fst (RefreshNodes c now)) later [] = []"
    by (simp add: createScoredNodes_def)
  then show ?thesis
    by (simp add: GetBestNode_def s lat lon empty)
qed

theorem C5_self_selection_witness:
  "GetBestNode exampleRuntime (NewBalancer ''local'' 5 5 (Some (Rows [] None)))
     100 100 [] [] ''abc'' ''1.5'' [] [] False = Inr (''local'', ''video+abc'')
   \<and> GetBestNode exampleRuntime (balStore (Rows [] None))
       100 100 [''a''] [''vod''] ''abc'' [] ''-2'' [] True = Inr (''local'', ''vod+abc'')"
proof -
  let ?n = "NewBalancer ''local'' 5 5 (Some (Rows [] None))"
  let ?c = "balStore (Rows [] None)"
  have rn: "RefreshNodes ?n 100 = (emptyStats, None)"
    by (simp add: RefreshNodes_def NewBalancer_def)
  have p: "\<exists>f. ParseFloat exampleRuntime ''1.5'' = Some f"
    "\<exists>f. ParseFloat exampleRuntime ''-2'' = Some f"
    by (simp_all add: exampleRuntime_def)
  have sn: "createScoredNodes ?n (fst (RefreshNodes ?n 100)) 100 [] = []"
    by (simp add: createScoredNodes_def)
  have sc: "createScoredNodes ?c (fst (RefreshNodes ?c 100)) 100 [''a''] = []"
    by (simp add: createScoredNodes_def scoreNode_def RefreshNodes_no_rows emptyStats_def
        split: option.splits)
  have 1: "GetBestNode exampleRuntime ?n 100 100 [] [] ''abc'' ''1.5'' [] [] False
           = Inr (''local'', ''video+abc'')"
    using C5_self_selection [of ?n 100 "''1.5''" exampleRuntime "[]" 100 "[]" "[]" "''abc''"
        "[]" False] rn p sn
    by (simp add: NewBalancer_def)
  have 2: "GetBestNode exampleRuntime ?c 100 100 [''a''] [''vod''] ''abc'' [] ''-2'' [] True
           = Inr (''local'', ''vod+abc'')"
    using C5_self_selection [of ?c 100 "[]" exampleRuntime "''-2''" 100 "[''a'']" "[''vod'']"
        "''abc''" "[]" True] RefreshNodes_no_rows [of 100] p sc
    by (simp add: balStore_def UpdateMembers_def NewBalancer_def)
  from 1 2 show ?thesis by blast
qed


section \<open>Selection\<close>

lemma mset_shuffleFrom: "i < length xs \<Longrightarrow> mset (shuffleFrom r k i xs) = mset xs"
proof (induction i arbitrary: k xs)
  case 0
  then show ?case by simp
next
  case (Suc i)
  let ?j = "r k mod (Suc i + 1)"
  let ?ys = "xs[Suc i := xs ! ?j, ?j := xs ! Suc i]"
  have "?j < Suc i + 1" by simp
  with Suc.prems have j: "?j < length xs" by linarith
  have "mset ?ys = mset xs"
    using Suc.prems j by (simp add: mset_swap)
  moreover have "i < length ?ys" using Suc.prems by simp
  ultimately show ?case using Suc.IH [of ?ys "Suc k"] by (simp add: Let_def)
qed

lemma set_shuffle: "set (shuffle r xs) = set xs"
proof (cases xs)
  case Nil
  then show ?thesis by (simp add: shuffle_def)
next
  case (Cons x ys)
  then have "length xs - 1 < length xs" by simp
  then have "mset (shuffle r xs) = mset xs"
    unfolding shuffle_def by (rule mset_shuffleFrom)
  then show ?thesis by (rule mset_eq_setD)
qed

lemma set_truncateReturned: "set (truncateReturned xs n) \<subseteq> set xs"
  by (auto simp: truncateReturned_def dest: in_set_takeD)

lemma Node_weigh: "Node (weigh streamID node) = Node node"
  by (simp add: weigh_def Let_def)

lemma selectTopNodes_candidates:
  assumes "keeps_candidates rt"
  shows "Node ` set (fst (selectTopNodes rt nodes streamID lat lon numNodes)) \<subseteq> Node ` set nodes"
proof -
  let ?g = "geoScores rt nodes lat lon"
  from assms have g: "Node ` set ?g \<subseteq> Node ` set nodes"
    and srt: "\<And>lt xs. set (sortSlice rt lt xs) \<subseteq> set xs"
    by (auto simp: keeps_candidates_def)
  let ?t1 = "map (\<lambda>node. node\<lparr>StreamScore := 2\<rparr>)
              (filter (\<lambda>node. GeoScore node = 2 \<and> HasStream node streamID \<and> GetLoadScore node = 2) ?g)"
  let ?t2 = "filter (\<lambda>node. GeoScore node = 2 \<and> GetLoadScore node = 2) ?g"
  let ?t3 = "sortSlice rt (\<lambda>a b. Score b < Score a) (map (weigh streamID) ?g)"
  have 1: "Node ` set (truncateReturned (shuffle (rand rt) ?t1) numNodes) \<subseteq> Node ` set ?g"
  proof -
    have "set (truncateReturned (shuffle (rand rt) ?t1) numNodes) \<subseteq> set ?t1"
      using set_truncateReturned [of "shuffle (rand rt) ?t1" numNodes]
      by (simp only: set_shuffle)
    moreover have "Node ` set ?t1 \<subseteq> Node ` set ?g" by auto
    ultimately show ?thesis by blast
  qed
  have 2: "Node ` set (truncateReturned (shuffle (rand rt) ?t2) numNodes) \<subseteq> Node ` set ?g"
  proof -
    have "set (truncateReturned (shuffle (rand rt) ?t2) numNodes) \<subseteq> set ?t2"
      using set_truncateReturned [of "shuffle (rand rt) ?t2" numNodes]
      by (simp only: set_shuffle)
    then show ?thesis by auto
  qed
  have 3: "Node ` set (truncateReturned ?t3 numNodes) \<subseteq> Node ` set ?g"
  proof -
    have "set (truncateReturned ?t3 numNodes) \<subseteq> set (map (weigh streamID) ?g)"
      using set_truncateReturned [of ?t3 numNodes] srt by blast
    moreover have "Node ` set (map (weigh streamID) ?g) \<subseteq> Node ` set ?g"
      by (auto simp: Node_weigh)
    ultimately show ?thesis by blast
  qed
  have "Node ` set (fst (selectTopNodes rt nodes streamID lat lon numNodes)) \<subseteq> Node ` set ?g"
  proof (cases "0 < length ?t1")
    case True
    then have "fst (selectTopNodes rt nodes streamID lat lon numNodes)
               = truncateReturned (shuffle (rand rt) ?t1) numNodes"
      by (simp add: selectTopNodes_def Let_def)
    with 1 show ?thesis by simp
  next
    case False
    note no1 = this
    show ?thesis
    proof (cases "0 < length ?t2")
      case True
      with no1 have "fst (selectTopNodes rt nodes streamID lat lon numNodes)
               = truncateReturned (shuffle (rand rt) ?t2) numNodes"
        by (simp add: selectTopNodes_def Let_def)
      with 2 show ?thesis by simp
    next
      case False
      with no1 have "fst (selectTopNodes rt nodes streamID lat lon numNodes)
               = truncateReturned ?t3 numNodes"
        by (simp add: selectTopNodes_def Let_def)
      with 3 show ?thesis by simp
    qed
  qed
  with g show ?thesis by blast
qed

lemma SelectNode_candidate:
  assumes "keeps_candidates rt" and "SelectNode rt nodes streamID lat lon = Inr node"
  shows "node \<in> Node ` set nodes"
proof -
  obtain topNodes k where top: "selectTopNodes rt nodes streamID lat lon 3 = (topNodes, k)"
    by (cases "selectTopNodes rt nodes streamID lat lon 3")
  from assms(2) top have ne: "topNodes \<noteq> []"
    and node: "node = Node (topNodes ! (rand rt k mod length topNodes))"
    by (auto simp: SelectNode_def split: if_splits)
  from ne have "topNodes ! (rand rt k mod length topNodes) \<in> set topNodes" by simp
  with node have "node \<in> Node ` set topNodes" by blast
  moreover from selectTopNodes_candidates [OF assms(1), of nodes streamID lat lon 3] top
  have "Node ` set topNodes \<subseteq> Node ` set nodes" by simp
  ultimately show ?thesis by blast
qed

lemma createScoredNodes_registered:
  "sn \<in> set (createScoredNodes c s now order) \<Longrightarrow> \<exists>n. Nodes c n = Some (Node sn)"
  by (auto simp: set_createScoredNodes scoreNode_Some)

text \<open>
  C4 (as stated, refuted). With an empty registry and a store that still holds the stats
  of node \<open>a\<close>, \<open>GetBestNode\<close> returns the local node's own name, which is not in the
  registry.
\<close>

theorem C4_self_not_registered_counterexample:
  "GetBestNode exampleRuntime (UpdateMembers (balStore (Rows [Decoded eventA] None)) [])
     100 100 [] [] ''abc'' [] [] [] False = Inr (''local'', ''video+abc'')
   \<and> Nodes (UpdateMembers (balStore (Rows [Decoded eventA] None)) []) ''local'' = None
   \<and> Nodes (UpdateMembers (balStore (Rows [Decoded eventA] None)) []) = Map.empty"
  by (simp add: GetBestNode_def RefreshNodes_def balStore_def UpdateMembers_def
      NewBalancer_def parseCoord_def createScoredNodes_def)

text \<open>
  C4 (amended). The node that \<open>GetBestNode\<close> returns is in the registry, whatever the
  store holds, or it is the local node's own name, returned because no node was scored.
\<close>

theorem C4_selected_node_registered:
  assumes "registry_ok c" and "keeps_candidates rt"
    and "GetBestNode rt c now later order redirectPrefixes playbackID lat lon fallbackPrefix
           isStudioReq = Inr (nodeName, fullName)"
  shows "nodeName \<in> dom (Nodes c)
         \<or> (nodeName = NodeName c
            \<and> createScoredNodes c (fst (RefreshNodes c now)) later order = [])"
proof -
  from assms(3) obtain s where s: "RefreshNodes c now = (s, None)"
    by (cases "RefreshNodes c now" rule: prod.exhaust)
      (auto simp: GetBestNode_def split: option.splits)
  from assms(3) s obtain latf where lat: "parseCoord rt lat = Inr latf"
    by (cases "parseCoord rt lat") (auto simp: GetBestNode_def)
  from assms(3) s lat obtain lonf where lon: "parseCoord rt lon = Inr lonf"
    by (cases "parseCoord rt lon") (auto simp: GetBestNode_def)
  let ?scored = "createScoredNodes c s later order"
  show ?thesis
  proof (cases "?scored = []")
    case True
    with assms(3) s lat lon have "nodeName = NodeName c"
      by (simp add: GetBestNode_def)
    with True s show ?thesis by simp
  next
    case False
    with assms(3) s lat lon obtain node
      where sel: "SelectNode rt ?scored playbackID latf lonf = Inr node"
        and name: "nodeName = Node.Name node"
      by (cases "SelectNode rt ?scored playbackID latf lonf")
        (auto simp: GetBestNode_def Let_def)
    from SelectNode_candidate [OF assms(2) sel] obtain sn
      where "sn \<in> set ?scored" and "node = Node sn" by blast
    with createScoredNodes_registered obtain n where n: "Nodes c n = Some node" by blast
    with assms(1) have "Node.Name node = n" by (simp add: registry_ok_def)
    with n name show ?thesis by auto
  qed
qed

theorem C4_selected_node_registered_witness:
  "GetBestNode exampleRuntime (balStore (Rows [Decoded eventA] None))
     100 100 [''a''] [] ''abc'' [] [] [] False = Inr (''a'', ''video+abc'')
   \<and> ''a'' \<in> dom (Nodes (balStore (Rows [Decoded eventA] None)))
   \<and> NodeName (balStore (Rows [Decoded eventA] None)) = ''local''"
proof -
  let ?c = "balStore (Rows [Decoded eventA] None)"
  have gb: "GetBestNode exampleRuntime ?c 100 100 [''a''] [] ''abc'' [] [] [] False
            = Inr (''a'', ''video+abc'')"
    by code_simp
  have local: "NodeName ?c = ''local''"
    by (simp add: balStore_def UpdateMembers_def NewBalancer_def)
  from C4_selected_node_registered [OF registry_ok_balStore keeps_candidates_exampleRuntime gb]
    local
  have "''a'' \<in> dom (Nodes ?c)" by auto
  with gb local show ?thesis by blast
qed


section \<open>The ingest lookup\<close>







section \<open>Ingest streams in the playback snapshot\<close>

lemma RefreshNodes_events:
  assumes "NodeStatsDB c = Some (Rows rows err)" and "snd (RefreshNodes c now) = None"
  shows "\<exists>events. rows = map Decoded events
           \<and> fst (RefreshNodes c now) = foldl (applyEvent (metricTimeout c) now) emptyStats events"
proof -
  from assms have ok: "snd (scanRows (metricTimeout c) now emptyStats rows err) = None"
    by (simp add: RefreshNodes_def)
  then have "\<forall>r\<in>set rows. \<exists>event. r = Decoded event"
    by (simp add: scanRows_ok_iff)
  then obtain events where rows: "rows = map Decoded events"
    using all_Decoded by blast
  with assms(1) have "fst (RefreshNodes c now)
      = foldl (applyEvent (metricTimeout c) now) emptyStats events"
    by (simp add: RefreshNodes_def scanRows_Decoded)
  with rows show ?thesis by blast
qed

text \<open>
  C10. When the row loop comes to an event whose metrics are not stale, it writes every
  ingest stream ID of the event into the ingest snapshot of the event's node under the ID,
  and into the playback snapshot of that node under the stripped playback ID (where the
  entry carries an ingest stream ID of the event with that playback ID), both with the time
  of the refresh as timestamp. After a successful refresh this is what the returned stats
  hold for the event, provided no later row holds an event of the same node with metrics
  that are not stale (such a row starts the node's snapshots anew); every stream of every
  snapshot carries the time of the refresh; and a scored node built from these stats has
  the ingested stream, as long as the time of the refresh is not stale when it is scored.
\<close>

theorem C10_ingest_streams_in_playback_snapshot:
  assumes "\<not> isStale now (NodeMetrics.Timestamp (NodeUpdateEvent.NodeMetrics event))
                (metricTimeout c)"
    and "x \<in> set (GetIngestStreams event)"
  shows
    "(streamsOf (stats.IngestStreams (applyEvent (metricTimeout c) now s0 event)) (NodeID event) x
        = Some \<lparr>ID = x, PlaybackID = getPlaybackID x, Timestamp = now\<rparr>
      \<and> (\<exists>y\<in>set (GetIngestStreams event). getPlaybackID y = getPlaybackID x
            \<and> streamsOf (stats.Streams (applyEvent (metricTimeout c) now s0 event))
                 (NodeID event) (getPlaybackID x)
                = Some \<lparr>ID = y, PlaybackID = getPlaybackID x, Timestamp = now\<rparr>))
     \<and> (NodeStatsDB c = Some (Rows (pre @ Decoded event # post) err)
          \<and> snd (RefreshNodes c now) = None
          \<and> (\<forall>e. Decoded e \<in> set post \<and> NodeID e = NodeID event \<longrightarrow>
                 isStale now (NodeMetrics.Timestamp (NodeUpdateEvent.NodeMetrics e))
                   (metricTimeout c))
         \<longrightarrow>
           streamsOf (stats.IngestStreams (fst (RefreshNodes c now))) (NodeID event) x
             = Some \<lparr>ID = x, PlaybackID = getPlaybackID x, Timestamp = now\<rparr>
           \<and> (\<exists>y\<in>set (GetIngestStreams event). getPlaybackID y = getPlaybackID x
                 \<and> streamsOf (stats.Streams (fst (RefreshNodes c now)))
                      (NodeID event) (getPlaybackID x)
                     = Some \<lparr>ID = y, PlaybackID = getPlaybackID x, Timestamp = now\<rparr>)
           \<and> (\<forall>sn. scoreNode c (fst (RefreshNodes c now)) later (NodeID event) = Some sn
                     \<and> \<not> isStale later now (metricTimeout c)
                   \<longrightarrow> HasStream sn (getPlaybackID x)))
     \<and> stamped now (fst (RefreshNodes c now))"
proof (intro conjI impI)
  let ?mt = "metricTimeout c"
  let ?n = "NodeID event"
  show "streamsOf (stats.IngestStreams (applyEvent ?mt now s0 event)) ?n x
        = Some \<lparr>ID = x, PlaybackID = getPlaybackID x, Timestamp = now\<rparr>"
    using assms by (rule applyEvent_ingest)
  show "\<exists>y\<in>set (GetIngestStreams event). getPlaybackID y = getPlaybackID x
            \<and> streamsOf (stats.Streams (applyEvent ?mt now s0 event)) ?n (getPlaybackID x)
                = Some \<lparr>ID = y, PlaybackID = getPlaybackID x, Timestamp = now\<rparr>"
    using assms by (rule applyEvent_playback)
  show "stamped now (fst (RefreshNodes c now))"
    by (rule RefreshNodes_stamped)
  assume h: "NodeStatsDB c = Some (Rows (pre @ Decoded event # post) err)
          \<and> snd (RefreshNodes c now) = None
          \<and> (\<forall>e. Decoded e \<in> set post \<and> NodeID e = NodeID event \<longrightarrow>
                 isStale now (NodeMetrics.Timestamp (NodeUpdateEvent.NodeMetrics e)) ?mt)"
  let ?s = "fst (RefreshNodes c now)"
  from h RefreshNodes_events [of c "pre @ Decoded event # post" err now]
  obtain events where rows: "pre @ Decoded event # post = map Decoded events"
    and s: "?s = foldl (applyEvent ?mt now) emptyStats events" by blast
  from rows obtain es1 es2 where ev: "events = es1 @ event # es2"
    and post: "post = map Decoded es2"
    by (auto simp: append_eq_map_conv Cons_eq_map_conv)
  let ?s1 = "applyEvent ?mt now (foldl (applyEvent ?mt now) emptyStats es1) event"
  have s': "?s = foldl (applyEvent ?mt now) ?s1 es2"
    by (simp add: s ev)
  from h post have "\<forall>e\<in>set es2. NodeID e = ?n \<longrightarrow>
      isStale now (NodeMetrics.Timestamp (NodeUpdateEvent.NodeMetrics e)) ?mt"
    by auto
  from foldl_applyEvent_keeps [OF this, of ?s1]
  have keep: "streamsOf (stats.Streams ?s) ?n = streamsOf (stats.Streams ?s1) ?n"
    "streamsOf (stats.IngestStreams ?s) ?n = streamsOf (stats.IngestStreams ?s1) ?n"
    by (simp_all add: s')
  show ing: "streamsOf (stats.IngestStreams ?s) ?n x
        = Some \<lparr>ID = x, PlaybackID = getPlaybackID x, Timestamp = now\<rparr>"
    unfolding keep using assms by (rule applyEvent_ingest)
  show play: "\<exists>y\<in>set (GetIngestStreams event). getPlaybackID y = getPlaybackID x
            \<and> streamsOf (stats.Streams ?s) ?n (getPlaybackID x)
                = Some \<lparr>ID = y, PlaybackID = getPlaybackID x, Timestamp = now\<rparr>"
    unfolding keep using assms by (rule applyEvent_playback)
  show "\<forall>sn. scoreNode c ?s later ?n = Some sn \<and> \<not> isStale later now ?mt
              \<longrightarrow> HasStream sn (getPlaybackID x)"
  proof (intro allI impI)
    fix sn
    assume a: "scoreNode c ?s later ?n = Some sn \<and> \<not> isStale later now ?mt"
    from play obtain y where
      y: "streamsOf (stats.Streams ?s) ?n (getPlaybackID x)
          = Some \<lparr>ID = y, PlaybackID = getPlaybackID x, Timestamp = now\<rparr>" by blast
    from a have "ScoredNode.Streams sn = copyFresh later ?mt (streamsOf (stats.Streams ?s) ?n)"
      by (auto simp: scoreNode_Some)
    moreover from y a
    have "copyFresh later ?mt (streamsOf (stats.Streams ?s) ?n) (getPlaybackID x)
          = Some \<lparr>ID = y, PlaybackID = getPlaybackID x, Timestamp = now\<rparr>"
      by (simp add: copyFresh_Some)
    ultimately show "HasStream sn (getPlaybackID x)"
      by (simp add: HasStream_def)
  qed
qed

theorem C10_ingest_streams_in_playback_snapshot_witness:
  "streamsOf (stats.IngestStreams (fst (RefreshNodes (balStore (Rows [Decoded eventA] None)) 100)))
     ''a'' ''video+ing''
     = Some \<lparr>ID = ''video+ing'', PlaybackID = ''ing'', Timestamp = 100\<rparr>
   \<and> streamsOf (stats.Streams (fst (RefreshNodes (balStore (Rows [Decoded eventA] None)) 100)))
       ''a'' ''ing''
     = Some \<lparr>ID = ''video+ing'', PlaybackID = ''ing'', Timestamp = 100\<rparr>
   \<and> NodeMetrics.Timestamp (NodeUpdateEvent.NodeMetrics eventA) = 98
   \<and> (\<exists>sn. scoreNode (balStore (Rows [Decoded eventA] None))
               (fst (RefreshNodes (balStore (Rows [Decoded eventA] None)) 100)) 100 ''a''
             = Some sn \<and> HasStream sn ''ing'')"
proof -
  let ?c = "balStore (Rows [Decoded eventA] None)"
  let ?s = "fst (RefreshNodes ?c 100)"
  have mt: "metricTimeout ?c = 5"
    by (simp add: balStore_def UpdateMembers_def NewBalancer_def)
  have ts: "NodeMetrics.Timestamp (NodeUpdateEvent.NodeMetrics eventA) = 98"
    by (simp add: eventA_def SetStreams_def zeroEvent_def)
  have id: "NodeID eventA = ''a''"
    by (simp add: eventA_def SetStreams_def zeroEvent_def)
  have f98: "\<not> isStale 100 98 5" and f100: "\<not> isStale 100 100 5"
    by (simp_all add: isStale_def Since_def Sub_def minDuration_def maxDuration_def)
  have fresh: "\<not> isStale 100 (NodeMetrics.Timestamp (NodeUpdateEvent.NodeMetrics eventA))
                 (metricTimeout ?c)"
    using f98 by (simp add: ts mt)
  have x: "''video+ing'' \<in> set (GetIngestStreams eventA)"
    by (simp add: ingest_of_eventA)
  have h: "NodeStatsDB ?c = Some (Rows ([] @ Decoded eventA # []) None)
          \<and> snd (RefreshNodes ?c 100) = None
          \<and> (\<forall>e. Decoded e \<in> set [] \<and> NodeID e = NodeID eventA \<longrightarrow>
                 isStale 100 (NodeMetrics.Timestamp (NodeUpdateEvent.NodeMetrics e))
                   (metricTimeout ?c))"
    by (simp add: NodeStatsDB_balStore RefreshNodes_def)
  note t = C10_ingest_streams_in_playback_snapshot [OF fresh x, of emptyStats "[]" "[]" None 100,
      THEN conjunct2, THEN conjunct1, THEN mp, OF h]
  from t have 1: "streamsOf (stats.IngestStreams ?s) ''a'' ''video+ing''
     = Some \<lparr>ID = ''video+ing'', PlaybackID = ''ing'', Timestamp = 100\<rparr>"
    by (simp add: id playbackID_ing)
  from t have 2: "streamsOf (stats.Streams ?s) ''a'' ''ing''
     = Some \<lparr>ID = ''video+ing'', PlaybackID = ''ing'', Timestamp = 100\<rparr>"
    by (simp add: id playbackID_ing ingest_of_eventA)
  from t f100 have 3: "\<forall>sn. scoreNode ?c ?s 100 ''a'' = Some sn \<longrightarrow> HasStream sn ''ing''"
    by (simp add: id playbackID_ing mt)
  have m: "stats.NodeMetrics ?s ''a'' = Some (NodeUpdateEvent.NodeMetrics eventA)"
    using applyEvent_metrics [OF fresh, of emptyStats]
    by (simp add: RefreshNodes_def NodeStatsDB_balStore id)
  have "\<exists>sn. scoreNode ?c ?s 100 ''a'' = Some sn"
    using f98 by (simp add: scoreNode_Some Nodes_balStore m ts mt)
  with 3 have 4: "\<exists>sn. scoreNode ?c ?s 100 ''a'' = Some sn \<and> HasStream sn ''ing''"
    by blast
  from 1 2 ts 4 show ?thesis by blast
qed


end
